theory Spec2Isabelle
  imports Main
begin

section \<open>JavaScript values\<close>

text \<open>
  The values a promise can settle with and a function can throw. An object is the
  association list of its own data properties, which is all that
  \<^verbatim>\<open>Object.prototype.hasOwnProperty\<close> consults.
\<close>

datatype jsval =
    JUndefined
  | JNull
  | JBool bool
  | JNum int
  | JStr string
  | JObj "(string \<times> jsval) list"
  | JFun nat

fun typeof :: "jsval \<Rightarrow> string" where
  "typeof JUndefined = ''undefined''"
| "typeof JNull = ''object''"
| "typeof (JBool b) = ''boolean''"
| "typeof (JNum n) = ''number''"
| "typeof (JStr s) = ''string''"
| "typeof (JObj ps) = ''object''"
| "typeof (JFun f) = ''function''"

text \<open>\<^verbatim>\<open>if (e)\<close>: the falsy values are undefined, null, false, 0 and the empty string.\<close>

fun truthy :: "jsval \<Rightarrow> bool" where
  "truthy JUndefined = False"
| "truthy JNull = False"
| "truthy (JBool b) = b"
| "truthy (JNum n) = (n \<noteq> 0)"
| "truthy (JStr s) = (s \<noteq> [])"
| "truthy (JObj ps) = True"
| "truthy (JFun f) = True"

definition nullTypeError :: jsval where
  "nullTypeError =
     JObj [(''name'', JStr ''TypeError''),
           (''message'', JStr ''Cannot convert undefined or null to object'')]"

text \<open>
  \<^verbatim>\<open>Object.prototype.hasOwnProperty.call(v, key)\<close>: the receiver is converted with
  ToObject, which throws a TypeError on undefined and null (\<open>Inl\<close> is the thrown value).
  The wrappers of the other primitives have no own property named \<^verbatim>\<open>message\<close>, the
  only key the instrumentation asks for.
\<close>

fun hasOwnProperty :: "jsval \<Rightarrow> string \<Rightarrow> jsval + bool" where
  "hasOwnProperty JUndefined k = Inl nullTypeError"
| "hasOwnProperty JNull k = Inl nullTypeError"
| "hasOwnProperty (JObj ps) k = Inr (map_of ps k \<noteq> None)"
| "hasOwnProperty v k = Inr False"

fun getProp :: "jsval \<Rightarrow> string \<Rightarrow> jsval" where
  "getProp (JObj ps) k = (case map_of ps k of None \<Rightarrow> JUndefined | Some v \<Rightarrow> v)"
| "getProp v k = JUndefined"

datatype promise = Pending | Fulfilled jsval | Rejected jsval

text \<open>What a call does synchronously: it throws, or it returns a promise.\<close>

datatype call_result = Throws jsval | Returns promise

section \<open>Header objects\<close>

text \<open>
  Text is kept as its UTF-8 bytes (a \<open>char\<close> is a byte), and a Buffer is a sequence of
  bytes of its own. A value found under a key is a string, a Buffer, undefined, null, or
  some other object or function, given by the string its \<^verbatim>\<open>toString()\<close> returns.
\<close>

type_synonym bytes = "char list"

datatype header_value =
    HString string
  | HBuffer bytes
  | HUndefined
  | HNull
  | HOther string

text \<open>
  A property an object inherits through its prototype chain: the value a read of it
  through the object gives, and whether an assignment through the object creates an own
  property (it does for a writable data property; it does not for an accessor such as
  \<^verbatim>\<open>__proto__\<close>, whose setter ignores a string).
\<close>

record inherited_property =
  inh_value :: header_value
  inh_assignable :: bool

text \<open>
  An object: its own enumerable properties in the order of their creation, and the
  properties it inherits.
\<close>

record js_object =
  own :: "(string \<times> header_value) list"
  inherited :: "(string \<times> inherited_property) list"

definition nativeFunction :: "string \<Rightarrow> inherited_property" where
  "nativeFunction name =
     \<lparr>inh_value = HOther (''function '' @ name @ ''() { [native code] }''),
      inh_assignable = True\<rparr>"

text \<open>The properties of \<^verbatim>\<open>Object.prototype\<close>, which every object literal inherits.\<close>

definition objectPrototype :: "(string \<times> inherited_property) list" where
  "objectPrototype =
     [(''constructor'', nativeFunction ''Object''),
      (''__defineGetter__'', nativeFunction ''__defineGetter__''),
      (''__defineSetter__'', nativeFunction ''__defineSetter__''),
      (''hasOwnProperty'', nativeFunction ''hasOwnProperty''),
      (''__lookupGetter__'', nativeFunction ''__lookupGetter__''),
      (''__lookupSetter__'', nativeFunction ''__lookupSetter__''),
      (''isPrototypeOf'', nativeFunction ''isPrototypeOf''),
      (''propertyIsEnumerable'', nativeFunction ''propertyIsEnumerable''),
      (''toString'', nativeFunction ''toString''),
      (''valueOf'', nativeFunction ''valueOf''),
      (''__proto__'', \<lparr>inh_value = HOther ''[object Object]'', inh_assignable = False\<rparr>),
      (''toLocaleString'', nativeFunction ''toLocaleString'')]"

text \<open>The object literal \<^verbatim>\<open>{}\<close>.\<close>

definition emptyObject :: js_object where
  "emptyObject = \<lparr>own = [], inherited = objectPrototype\<rparr>"

text \<open>\<^verbatim>\<open>carrier[key]\<close>: an own property first, an inherited one otherwise.\<close>

definition readProperty :: "js_object \<Rightarrow> string \<Rightarrow> header_value" where
  "readProperty c key =
     (case map_of (own c) key of
        Some v \<Rightarrow> v
      | None \<Rightarrow>
          (case map_of (inherited c) key of
             Some p \<Rightarrow> inh_value p
           | None \<Rightarrow> HUndefined))"

fun set_own :: "string \<Rightarrow> header_value \<Rightarrow> (string \<times> header_value) list \<Rightarrow>
    (string \<times> header_value) list" where
  "set_own k v [] = [(k, v)]"
| "set_own k v ((k', v') # h) =
     (if k = k' then (k, v) # h else (k', v') # set_own k v h)"

text \<open>
  \<^verbatim>\<open>carrier[key] = value\<close>: an own property is overwritten in its place; otherwise
  a new own property is added last, unless the key is inherited and not assignable.
\<close>

definition writeProperty :: "string \<Rightarrow> header_value \<Rightarrow> js_object \<Rightarrow> js_object" where
  "writeProperty k v c =
     (if map_of (own c) k = None \<and>
         (case map_of (inherited c) k of Some p \<Rightarrow> \<not> inh_assignable p | None \<Rightarrow> False)
      then c
      else c\<lparr>own := set_own k v (own c)\<rparr>)"

text \<open>
  An integer-like key (an array index): the decimal numeral, without a leading zero, of a
  number below \<open>2\<^sup>3\<^sup>2 - 1\<close>.
\<close>

definition digitValue :: "char \<Rightarrow> int option" where
  "digitValue c =
     (if (48 :: nat) \<le> of_char c \<and> (of_char c :: nat) \<le> 57
      then Some (int (of_char c) - 48) else None)"

definition numeralValue :: "string \<Rightarrow> int" where
  "numeralValue k = foldl (\<lambda>n c. 10 * n + (case digitValue c of Some d \<Rightarrow> d | None \<Rightarrow> 0)) 0 k"

definition isArrayIndex :: "string \<Rightarrow> bool" where
  "isArrayIndex k =
     (k \<noteq> [] \<and> list_all (\<lambda>c. digitValue c \<noteq> None) k \<and>
      (k = ''0'' \<or> hd k \<noteq> CHR ''0'') \<and> numeralValue k < 4294967295)"

text \<open>
  \<^verbatim>\<open>Object.keys(carrier)\<close>: the own keys, the integer-like ones first in ascending
  order, the others after them in the order of their creation.
\<close>

definition ownKeys :: "js_object \<Rightarrow> string list" where
  "ownKeys c =
     sort_key numeralValue (filter isArrayIndex (map fst (own c))) @
     filter (\<lambda>k. \<not> isArrayIndex k) (map fst (own c))"

text \<open>
  \<^verbatim>\<open>Buffer.prototype.toString()\<close>: the bytes are decoded as UTF-8. A well-formed
  sequence is kept, and every maximal ill-formed part is replaced by U+FFFD (bytes
  EF BF BD).
\<close>

definition replacement :: string where
  "replacement = [CHR 0xEF, CHR 0xBF, CHR 0xBD]"

definition within :: "nat \<Rightarrow> nat \<Rightarrow> char \<Rightarrow> bool" where
  "within lo hi c = (lo \<le> of_char c \<and> (of_char c :: nat) \<le> hi)"

fun utf8Decode :: "bytes \<Rightarrow> string" where
  "utf8Decode [] = []"
| "utf8Decode (b # bs) =
     (if within 0x00 0x7F b then b # utf8Decode bs
      else if within 0xC2 0xDF b then
        (case bs of
           [] \<Rightarrow> replacement
         | c1 # r1 \<Rightarrow>
             if within 0x80 0xBF c1 then b # c1 # utf8Decode r1
             else replacement @ utf8Decode bs)
      else if within 0xE0 0xEF b then
        (case bs of
           [] \<Rightarrow> replacement
         | c1 # r1 \<Rightarrow>
             if within (if b = CHR 0xE0 then 0xA0 else 0x80)
                  (if b = CHR 0xED then 0x9F else 0xBF) c1
             then (case r1 of
                     [] \<Rightarrow> replacement
                   | c2 # r2 \<Rightarrow>
                       if within 0x80 0xBF c2 then b # c1 # c2 # utf8Decode r2
                       else replacement @ utf8Decode r1)
             else replacement @ utf8Decode bs)
      else if within 0xF0 0xF4 b then
        (case bs of
           [] \<Rightarrow> replacement
         | c1 # r1 \<Rightarrow>
             if within (if b = CHR 0xF0 then 0x90 else 0x80)
                  (if b = CHR 0xF4 then 0x8F else 0xBF) c1
             then (case r1 of
                     [] \<Rightarrow> replacement
                   | c2 # r2 \<Rightarrow>
                       if within 0x80 0xBF c2
                       then (case r2 of
                               [] \<Rightarrow> replacement
                             | c3 # r3 \<Rightarrow>
                                 if within 0x80 0xBF c3
                                 then b # c1 # c2 # c3 # utf8Decode r3
                                 else replacement @ utf8Decode r2)
                       else replacement @ utf8Decode r1)
             else replacement @ utf8Decode bs)
      else replacement @ utf8Decode bs)"

subsection \<open>propagtor.ts: bufferTextMapGetter\<close>

text \<open>\<^verbatim>\<open>value?.toString()\<close>\<close>

fun toString_hv :: "header_value \<Rightarrow> string option" where
  "toString_hv (HString s) = Some s"
| "toString_hv (HBuffer bs) = Some (utf8Decode bs)"
| "toString_hv HUndefined = None"
| "toString_hv HNull = None"
| "toString_hv (HOther s) = Some s"

text \<open>\<^verbatim>\<open>carrier?.[key]?.toString()\<close>\<close>

definition getter_get :: "js_object option \<Rightarrow> string \<Rightarrow> string option" where
  "getter_get carrier key =
     (case carrier of
        None \<Rightarrow> None
      | Some c \<Rightarrow> toString_hv (readProperty c key))"

text \<open>\<^verbatim>\<open>carrier ? Object.keys(carrier) : []\<close>\<close>

definition getter_keys :: "js_object option \<Rightarrow> string list" where
  "getter_keys carrier = (case carrier of None \<Rightarrow> [] | Some c \<Rightarrow> ownKeys c)"

section \<open>Kafka messages\<close>

text \<open>
  A consumed message, and a produced message as it reads at one moment: key, value and
  the header object, if there is one.
\<close>

record message_value =
  mv_key :: "string option"
  mv_value :: "string option"
  mv_headers :: "js_object option"

text \<open>
  The instrumentation writes into the messages it is given to produce, so these are
  objects with an identity: a produced message is known by its address, its header object
  by an address of its own, and the store holds what is at each address. Two positions
  of a call may hold the same message, and two messages the same header object.
\<close>

type_synonym addr = nat

record message =
  msg_key :: "string option"
  msg_value :: "string option"
  msg_headers :: "addr option"

record store =
  message_at :: "addr \<Rightarrow> message"
  object_at :: "addr \<Rightarrow> js_object"
  next_object :: addr

definition readMessage :: "store \<Rightarrow> addr \<Rightarrow> message_value" where
  "readMessage st r =
     \<lparr>mv_key = msg_key (message_at st r), mv_value = msg_value (message_at st r),
      mv_headers = map_option (object_at st) (msg_headers (message_at st r))\<rparr>"

text \<open>
  The arguments of the producer calls, over the messages as the caller passes them
  (addresses) and as they read (values).
\<close>

record 'm topic_messages =
  tm_topic :: string
  tm_messages :: "'m list"

record 'm producer_record =
  pr_topic :: string
  pr_messages :: "'m list"
  pr_acks :: "int option"

record 'm producer_batch =
  pb_topicMessages :: "'m topic_messages list option"
  pb_acks :: "int option"

record each_message_payload =
  emp_topic :: string
  emp_partition :: nat
  emp_message :: message_value

record batch =
  batch_topic :: string
  batch_partition :: nat
  batch_messages :: "message_value list"

record each_batch_payload =
  ebp_batch :: batch

datatype 'm call_args =
    SendArgs "'m producer_record"
  | SendBatchArgs "'m producer_batch"
  | EachMessageArgs each_message_payload
  | EachBatchArgs each_batch_payload

definition readRecord :: "store \<Rightarrow> addr producer_record \<Rightarrow> message_value producer_record" where
  "readRecord st rcd =
     \<lparr>pr_topic = pr_topic rcd, pr_messages = map (readMessage st) (pr_messages rcd),
      pr_acks = pr_acks rcd\<rparr>"

definition readGroup :: "store \<Rightarrow> addr topic_messages \<Rightarrow> message_value topic_messages" where
  "readGroup st tm =
     \<lparr>tm_topic = tm_topic tm, tm_messages = map (readMessage st) (tm_messages tm)\<rparr>"

definition readBatch :: "store \<Rightarrow> addr producer_batch \<Rightarrow> message_value producer_batch" where
  "readBatch st b =
     \<lparr>pb_topicMessages = map_option (map (readGroup st)) (pb_topicMessages b),
      pb_acks = pb_acks b\<rparr>"

fun readArgs :: "store \<Rightarrow> addr call_args \<Rightarrow> message_value call_args" where
  "readArgs st (SendArgs rcd) = SendArgs (readRecord st rcd)"
| "readArgs st (SendBatchArgs b) = SendBatchArgs (readBatch st b)"
| "readArgs st (EachMessageArgs payload) = EachMessageArgs payload"
| "readArgs st (EachBatchArgs payload) = EachBatchArgs payload"

section \<open>Contexts and propagation\<close>

text \<open>
  A span is known by the number the tracer gave it, a remote span by the identifying
  data that travelled in the headers.
\<close>

datatype span_ref = LocalSpan nat | RemoteSpan string

record otel_context =
  ctx_span :: "span_ref option"
  ctx_baggage :: "(string \<times> string) list"

definition ROOT_CONTEXT :: otel_context where
  "ROOT_CONTEXT = \<lparr>ctx_span = None, ctx_baggage = []\<rparr>"

definition setSpan :: "otel_context \<Rightarrow> span_ref \<Rightarrow> otel_context" where
  "setSpan c s = c\<lparr>ctx_span := Some s\<rparr>"

definition getSpan :: "otel_context \<Rightarrow> span_ref option" where
  "getSpan c = ctx_span c"

text \<open>
  The registered propagator is a parameter: the header entries it writes for a context,
  and the context it decodes, from a base context, through a getter and the carrier's
  keys.
\<close>

record propagator =
  prop_fields :: "otel_context \<Rightarrow> (string \<times> string) list"
  prop_decode :: "otel_context \<Rightarrow> (string \<Rightarrow> string option) \<Rightarrow> string list \<Rightarrow> otel_context"

text \<open>
  \<^verbatim>\<open>propagation.inject(context, carrier)\<close> with the default setter, which assigns
  \<^verbatim>\<open>carrier[key] = value\<close> for every field.
\<close>

definition propagation_inject :: "propagator \<Rightarrow> otel_context \<Rightarrow> js_object \<Rightarrow> js_object" where
  "propagation_inject P c h =
     fold (\<lambda>kv. writeProperty (fst kv) (HString (snd kv))) (prop_fields P c) h"

text \<open>\<^verbatim>\<open>propagation.extract(base, carrier, bufferTextMapGetter)\<close>\<close>

definition propagation_extract ::
  "propagator \<Rightarrow> otel_context \<Rightarrow> js_object option \<Rightarrow> otel_context" where
  "propagation_extract P base carrier =
     prop_decode P base (getter_get carrier) (getter_keys carrier)"

section \<open>The tracer, the diagnostics channel and the calls made to them\<close>

datatype span_kind = PRODUCER | CONSUMER

record span_start =
  sp_id :: nat
  sp_name :: string
  sp_kind :: span_kind
  sp_attributes :: "(string \<times> string) list"
  sp_links :: "span_ref list"
  sp_parent :: "span_ref option"

datatype hook_kind = ProducerHook | ConsumerHook

text \<open>
  Everything the instrumentation does to its collaborators, in the order it does it:
  spans started on the tracer, attributes and statuses set on them, spans ended, hooks
  run (with the message as it reads at that moment), errors sent to
  \<^verbatim>\<open>diag.error\<close>, and the original function called: with its arguments as they
  were passed, as they read at the call, and under the active context.
\<close>

datatype event =
    SpanStarted span_start
  | AttributeSet nat string string
  | StatusSet nat jsval
  | SpanEnded nat
  | HookCalled hook_kind nat string message_value
  | DiagError string jsval
  | OriginalCalled "addr call_args" "message_value call_args" otel_context

record world =
  next_span :: nat
  trace :: "event list"
  store :: store

definition emit :: "event \<Rightarrow> world \<Rightarrow> world" where
  "emit e w = w\<lparr>trace := trace w @ [e]\<rparr>"

text \<open>
  \<^verbatim>\<open>tracer.startSpan(name, {kind, attributes, links}, context)\<close>: with no context
  given the span starts under the active one; its parent is the span of that context.
\<close>

definition startSpan ::
  "string \<Rightarrow> span_kind \<Rightarrow> (string \<times> string) list \<Rightarrow> span_ref list \<Rightarrow>
   otel_context option \<Rightarrow> otel_context \<Rightarrow> world \<Rightarrow> nat \<times> world" where
  "startSpan name kind attrs links ctx active w =
     (let c = (case ctx of None \<Rightarrow> active | Some c' \<Rightarrow> c');
          sid = next_span w
      in (sid,
          emit (SpanStarted \<lparr>sp_id = sid, sp_name = name, sp_kind = kind,
                             sp_attributes = attrs, sp_links = links,
                             sp_parent = getSpan c\<rparr>)
            (w\<lparr>next_span := Suc sid\<rparr>)))"

section \<open>Configuration\<close>

text \<open>
  A hook receives the span, the topic and the message. What it does is a parameter:
  the attributes it sets on the span and the value it throws, if it throws. A hook
  reads the message and leaves it as it is.
\<close>

record hook_result =
  hook_attributes :: "(string \<times> string) list"
  hook_throws :: "jsval option"

type_synonym hook = "nat \<Rightarrow> string \<Rightarrow> message_value \<Rightarrow> hook_result"

text \<open>
  Modelled from the spec: the type \<^verbatim>\<open>KafkaJsInstrumentationConfig\<close> of
  \<^verbatim>\<open>./types\<close> is not among the sources; section 6 of the specification gives its
  three optional fields.
\<close>

record kafkajs_config =
  producerHook :: "hook option"
  consumerHook :: "hook option"
  moduleVersionAttributeName :: "string option"

record instrumentation =
  config :: kafkajs_config
  moduleVersion :: "string option"

section \<open>kafkajs.ts\<close>

definition addModuleVersion :: "instrumentation \<Rightarrow> nat \<Rightarrow> world \<Rightarrow> world" where
  "addModuleVersion inst sid w =
     (case moduleVersionAttributeName (config inst) of
        None \<Rightarrow> w
      | Some name \<Rightarrow>
          (case moduleVersion inst of
             None \<Rightarrow> w
           | Some v \<Rightarrow> emit (AttributeSet sid name v) w))"

text \<open>
  \<^verbatim>\<open>safeExecuteInTheMiddle(execute, onFinish, preventThrowingError)\<close> of
  \<^verbatim>\<open>@opentelemetry/instrumentation\<close>: it runs \<open>execute\<close> inside a try block, hands
  what was thrown (or undefined) to \<open>onFinish\<close>, and throws the error on only when it is
  truthy and \<open>preventThrowingError\<close> is false. The first component of the result is the
  value thrown on.
\<close>

definition safeExecuteInTheMiddle ::
  "(world \<Rightarrow> jsval option \<times> world) \<Rightarrow> (jsval option \<Rightarrow> world \<Rightarrow> world) \<Rightarrow> bool \<Rightarrow>
   world \<Rightarrow> jsval option \<times> world" where
  "safeExecuteInTheMiddle execute onFinish preventThrowingError w =
     (let (error, w1) = execute w;
          w2 = onFinish error w1
      in case error of
           None \<Rightarrow> (None, w2)
         | Some e \<Rightarrow>
             if truthy e \<and> \<not> preventThrowingError then (Some e, w2) else (None, w2))"

text \<open>The call of a hook: the attributes it sets on the span, and what it throws.\<close>

definition callHook ::
  "hook_kind \<Rightarrow> hook \<Rightarrow> nat \<Rightarrow> string \<Rightarrow> message_value \<Rightarrow> world \<Rightarrow> jsval option \<times> world" where
  "callHook hk h sid topic m w =
     (let r = h sid topic m;
          w1 = emit (HookCalled hk sid topic m) w
      in (hook_throws r,
          fold (\<lambda>kv. emit (AttributeSet sid (fst kv) (snd kv))) (hook_attributes r) w1))"

text \<open>\<^verbatim>\<open>(e) => { if (e) diag.error(text, e) }\<close>\<close>

definition logHookError :: "string \<Rightarrow> jsval option \<Rightarrow> world \<Rightarrow> world" where
  "logHookError text error w =
     (case error of
        None \<Rightarrow> w
      | Some e \<Rightarrow> if truthy e then emit (DiagError text e) w else w)"

definition consumerAttributes :: "string \<Rightarrow> string \<Rightarrow> (string \<times> string) list" where
  "consumerAttributes topic operation =
     [(''messaging.system'', ''kafka''),
      (''messaging.destination'', topic),
      (''messaging.destination_kind'', ''topic''),
      (''messaging.operation'', operation)]"

definition producerAttributes :: "string \<Rightarrow> (string \<times> string) list" where
  "producerAttributes topic =
     [(''messaging.system'', ''kafka''),
      (''messaging.destination'', topic),
      (''messaging.destination_kind'', ''topic'')]"

text \<open>
  A function of the instrumentation either throws (\<open>Inl\<close>, with the value thrown) or
  returns (\<open>Inr\<close>); both carry the calls made so far.
\<close>

definition startConsumerSpan ::
  "instrumentation \<Rightarrow> string \<Rightarrow> message_value option \<Rightarrow> string \<Rightarrow> otel_context option \<Rightarrow>
   span_ref option \<Rightarrow> otel_context \<Rightarrow> world \<Rightarrow> (jsval \<times> world) + (nat \<times> world)" where
  "startConsumerSpan inst topic msg operation ctx link active w =
     (let (span, w1) =
            startSpan topic CONSUMER (consumerAttributes topic operation)
              (case link of None \<Rightarrow> [] | Some l \<Rightarrow> [l]) ctx active w;
          w2 = addModuleVersion inst span w1
      in case consumerHook (config inst) of
           None \<Rightarrow> Inr (span, w2)
         | Some h \<Rightarrow>
             (case msg of
                None \<Rightarrow> Inr (span, w2)
              | Some m \<Rightarrow>
                  (case safeExecuteInTheMiddle (callHook ConsumerHook h span topic m)
                          (logHookError ''kafkajs instrumentation: consumerHook error'')
                          True w2 of
                     (Some e, w3) \<Rightarrow> Inl (e, w3)
                   | (None, w3) \<Rightarrow> Inr (span, w3))))"

text \<open>
  \<^verbatim>\<open>message.headers = message.headers ?? {}\<close>: a message without a header object is
  given a new, empty one, at an address not in use; the result is the address of the
  message's header object.
\<close>

definition ensureHeaders :: "addr \<Rightarrow> store \<Rightarrow> addr \<times> store" where
  "ensureHeaders r st =
     (case msg_headers (message_at st r) of
        Some a \<Rightarrow> (a, st)
      | None \<Rightarrow>
          (let a = next_object st
           in (a, st\<lparr>message_at := (message_at st)(r := (message_at st r)\<lparr>msg_headers := Some a\<rparr>),
                     object_at := (object_at st)(a := emptyObject),
                     next_object := Suc a\<rparr>)))"

text \<open>
  \<^verbatim>\<open>propagation.inject(context, message.headers)\<close>: the fields are written into the
  object at the address, for every message that holds it.
\<close>

definition injectAt :: "propagator \<Rightarrow> otel_context \<Rightarrow> addr \<Rightarrow> store \<Rightarrow> store" where
  "injectAt P c a st = st\<lparr>object_at := (object_at st)(a := propagation_inject P c (object_at st a))\<rparr>"

definition startProducerSpan ::
  "instrumentation \<Rightarrow> propagator \<Rightarrow> string \<Rightarrow> addr \<Rightarrow> otel_context \<Rightarrow> world \<Rightarrow>
   (jsval \<times> world) + (nat \<times> world)" where
  "startProducerSpan inst P topic message active w =
     (let (span, w1) =
            startSpan topic PRODUCER (producerAttributes topic) [] None active w;
          w2 = addModuleVersion inst span w1;
          (headers, st1) = ensureHeaders message (store w2);
          w3 = w2\<lparr>store := injectAt P (setSpan active (LocalSpan span)) headers st1\<rparr>
      in case producerHook (config inst) of
           None \<Rightarrow> Inr (span, w3)
         | Some h \<Rightarrow>
             (case safeExecuteInTheMiddle
                     (callHook ProducerHook h span topic (readMessage (store w3) message))
                     (logHookError ''kafkajs instrumentation: producerHook error'')
                     True w3 of
                (Some e, w4) \<Rightarrow> Inl (e, w4)
              | (None, w4) \<Rightarrow> Inr (span, w4)))"

text \<open>
  The catch handler of \<^verbatim>\<open>_endSpansOnPromise\<close> up to its \<^verbatim>\<open>forEach\<close>: the message
  it computes (\<open>JUndefined\<close> when none is assigned), or the value it throws itself.
\<close>

definition errorMessageOf :: "jsval \<Rightarrow> jsval + jsval" where
  "errorMessageOf reason =
     (if typeof reason = ''string'' then Inr reason
      else if typeof reason = ''object'' then
        (case hasOwnProperty reason ''message'' of
           Inl e \<Rightarrow> Inl e
         | Inr True \<Rightarrow> Inr (getProp reason ''message'')
         | Inr False \<Rightarrow> Inr JUndefined)
      else Inr JUndefined)"

definition setStatusAll :: "nat list \<Rightarrow> jsval \<Rightarrow> world \<Rightarrow> world" where
  "setStatusAll spans msg w = fold (\<lambda>s. emit (StatusSet s msg)) spans w"

definition endAll :: "nat list \<Rightarrow> world \<Rightarrow> world" where
  "endAll spans w = fold (\<lambda>s. emit (SpanEnded s)) spans w"

text \<open>
  \<^verbatim>\<open>Promise.resolve(p).catch(handler).finally(end)\<close>, run at the moment the promise
  settles: a handler that throws rejects the promise with what it threw, and the
  \<^verbatim>\<open>finally\<close> callback runs after it either way. A promise that stays pending runs
  neither callback.
\<close>

definition endSpansOnPromise :: "nat list \<Rightarrow> promise \<Rightarrow> world \<Rightarrow> promise \<times> world" where
  "endSpansOnPromise spans p w =
     (case p of
        Pending \<Rightarrow> (Pending, w)
      | Fulfilled v \<Rightarrow> (Fulfilled v, endAll spans w)
      | Rejected reason \<Rightarrow>
          (case errorMessageOf reason of
             Inl e \<Rightarrow> (Rejected e, endAll spans w)
           | Inr msg \<Rightarrow> (Rejected reason, endAll spans (setStatusAll spans msg w))))"

text \<open>
  The original function: what it does with its arguments, as they read when it is
  called, under the context that is active then. It returns a promise, given here by
  the way it settles, or throws. The spans of the instrumentation are out of its reach.
\<close>

type_synonym original = "message_value call_args \<Rightarrow> otel_context \<Rightarrow> call_result"

text \<open>
  \<^verbatim>\<open>original.apply(this, args)\<close> followed by \<^verbatim>\<open>_endSpansOnPromise(spans, result)\<close>:
  a throw of the original leaves the function at once.
\<close>

definition applyOriginal ::
  "original \<Rightarrow> addr call_args \<Rightarrow> otel_context \<Rightarrow> world \<Rightarrow>
   (jsval \<times> world) + (promise \<times> world)" where
  "applyOriginal orig args active w =
     (let received = readArgs (store w) args;
          w1 = emit (OriginalCalled args received active) w
      in case orig received active of
           Throws e \<Rightarrow> Inl (e, w1)
         | Returns p \<Rightarrow> Inr (p, w1))"

definition returned :: "(jsval \<times> world) + (promise \<times> world) \<Rightarrow> call_result \<times> world" where
  "returned r = (case r of Inl (e, w) \<Rightarrow> (Throws e, w) | Inr (p, w) \<Rightarrow> (Returns p, w))"

text \<open>\<^verbatim>\<open>messages.map((message) => _startProducerSpan(topic, message))\<close>\<close>

fun startProducerSpans ::
  "instrumentation \<Rightarrow> propagator \<Rightarrow> string \<Rightarrow> addr list \<Rightarrow> otel_context \<Rightarrow> world \<Rightarrow>
   (jsval \<times> world) + (nat list \<times> world)" where
  "startProducerSpans inst P topic [] active w = Inr ([], w)"
| "startProducerSpans inst P topic (m # ms) active w =
     (case startProducerSpan inst P topic m active w of
        Inl t \<Rightarrow> Inl t
      | Inr (span, w1) \<Rightarrow>
          (case startProducerSpans inst P topic ms active w1 of
             Inl t \<Rightarrow> Inl t
           | Inr (spans, w2) \<Rightarrow> Inr (span # spans, w2)))"

text \<open>
  The nested \<^verbatim>\<open>map\<close> of \<^verbatim>\<open>sendBatch\<close> with the \<^verbatim>\<open>reduce\<close> that concatenates the
  groups' spans.
\<close>

fun startBatchSpans ::
  "instrumentation \<Rightarrow> propagator \<Rightarrow> addr topic_messages list \<Rightarrow> otel_context \<Rightarrow> world \<Rightarrow>
   (jsval \<times> world) + (nat list \<times> world)" where
  "startBatchSpans inst P [] active w = Inr ([], w)"
| "startBatchSpans inst P (tm # tms) active w =
     (case startProducerSpans inst P (tm_topic tm) (tm_messages tm) active w of
        Inl t \<Rightarrow> Inl t
      | Inr (spans, w1) \<Rightarrow>
          (case startBatchSpans inst P tms active w1 of
             Inl t \<Rightarrow> Inl t
           | Inr (spans', w2) \<Rightarrow> Inr (spans @ spans', w2)))"

definition send ::
  "instrumentation \<Rightarrow> propagator \<Rightarrow> original \<Rightarrow> otel_context \<Rightarrow> addr producer_record \<Rightarrow>
   world \<Rightarrow> call_result \<times> world" where
  "send inst P orig active record w =
     returned
       (case startProducerSpans inst P (pr_topic record) (pr_messages record) active w of
          Inl t \<Rightarrow> Inl t
        | Inr (spans, w1) \<Rightarrow>
            (case applyOriginal orig (SendArgs record) active w1 of
               Inl t \<Rightarrow> Inl t
             | Inr (origSendResult, w2) \<Rightarrow>
                 Inr (endSpansOnPromise spans origSendResult w2)))"

text \<open>\<^verbatim>\<open>batch.topicMessages || []\<close>: an absent field gives no messages.\<close>

definition sendBatch ::
  "instrumentation \<Rightarrow> propagator \<Rightarrow> original \<Rightarrow> otel_context \<Rightarrow> addr producer_batch \<Rightarrow>
   world \<Rightarrow> call_result \<times> world" where
  "sendBatch inst P orig active b w =
     returned
       (case startBatchSpans inst P
               (case pb_topicMessages b of None \<Rightarrow> [] | Some tms \<Rightarrow> tms) active w of
          Inl t \<Rightarrow> Inl t
        | Inr (spans, w1) \<Rightarrow>
            (case applyOriginal orig (SendBatchArgs b) active w1 of
               Inl t \<Rightarrow> Inl t
             | Inr (origSendResult, w2) \<Rightarrow>
                 Inr (endSpansOnPromise spans origSendResult w2)))"

definition eachMessage ::
  "instrumentation \<Rightarrow> propagator \<Rightarrow> original \<Rightarrow> otel_context \<Rightarrow>
   each_message_payload \<Rightarrow> world \<Rightarrow> call_result \<times> world" where
  "eachMessage inst P orig active payload w =
     returned
       (let propagatedContext =
              propagation_extract P ROOT_CONTEXT (mv_headers (emp_message payload))
        in case startConsumerSpan inst (emp_topic payload) (Some (emp_message payload))
                  ''process'' (Some propagatedContext) None active w of
             Inl t \<Rightarrow> Inl t
           | Inr (span, w1) \<Rightarrow>
               (case applyOriginal orig (EachMessageArgs payload)
                       (setSpan propagatedContext (LocalSpan span)) w1 of
                  Inl t \<Rightarrow> Inl t
                | Inr (eachMessagePromise, w2) \<Rightarrow>
                    Inr (endSpansOnPromise [span] eachMessagePromise w2)))"

text \<open>
  The \<^verbatim>\<open>map\<close> over the batch's messages, which runs inside \<^verbatim>\<open>context.with\<close>:
  \<open>inner\<close> is the context active there.
\<close>

fun startProcessSpans ::
  "instrumentation \<Rightarrow> string \<Rightarrow> propagator \<Rightarrow> message_value list \<Rightarrow>
   otel_context \<Rightarrow> world \<Rightarrow> (jsval \<times> world) + (nat list \<times> world)" where
  "startProcessSpans inst topic P [] inner w = Inr ([], w)"
| "startProcessSpans inst topic P (m # ms) inner w =
     (let propagatedContext = propagation_extract P ROOT_CONTEXT (mv_headers m);
          origSpanLink = getSpan propagatedContext
      in case startConsumerSpan inst topic (Some m) ''process'' None origSpanLink inner w of
           Inl t \<Rightarrow> Inl t
         | Inr (span, w1) \<Rightarrow>
             (case startProcessSpans inst topic P ms inner w1 of
                Inl t \<Rightarrow> Inl t
              | Inr (spans, w2) \<Rightarrow> Inr (span # spans, w2)))"

definition eachBatch ::
  "instrumentation \<Rightarrow> propagator \<Rightarrow> original \<Rightarrow> otel_context \<Rightarrow>
   each_batch_payload \<Rightarrow> world \<Rightarrow> call_result \<times> world" where
  "eachBatch inst P orig active payload w =
     returned
       (case startConsumerSpan inst (batch_topic (ebp_batch payload)) None ''receive''
               (Some ROOT_CONTEXT) None active w of
          Inl t \<Rightarrow> Inl t
        | Inr (receivingSpan, w1) \<Rightarrow>
            (let inner = setSpan active (LocalSpan receivingSpan)
             in case startProcessSpans inst (batch_topic (ebp_batch payload)) P
                       (batch_messages (ebp_batch payload)) inner w1 of
                  Inl t \<Rightarrow> Inl t
                | Inr (spans, w2) \<Rightarrow>
                    (case applyOriginal orig (EachBatchArgs payload) inner w2 of
                       Inl t \<Rightarrow> Inl t
                     | Inr (batchMessagePromise, w3) \<Rightarrow>
                         Inr (endSpansOnPromise (receivingSpan # spans)
                                batchMessagePromise w3))))"

text \<open>An intercepted operation is one of the four, told apart by its arguments.\<close>

definition intercepted ::
  "instrumentation \<Rightarrow> propagator \<Rightarrow> original \<Rightarrow> otel_context \<Rightarrow>
   addr call_args \<Rightarrow> world \<Rightarrow> call_result \<times> world" where
  "intercepted inst P orig active args w =
     (case args of
        SendArgs record \<Rightarrow> send inst P orig active record w
      | SendBatchArgs b \<Rightarrow> sendBatch inst P orig active b w
      | EachMessageArgs payload \<Rightarrow> eachMessage inst P orig active payload w
      | EachBatchArgs payload \<Rightarrow> eachBatch inst P orig active payload w)"

section \<open>Reading the calls made\<close>

definition new_events :: "world \<Rightarrow> world \<Rightarrow> event list" where
  "new_events w w' = drop (length (trace w)) (trace w')"

fun span_starts :: "event list \<Rightarrow> span_start list" where
  "span_starts [] = []"
| "span_starts (SpanStarted s # es) = s # span_starts es"
| "span_starts (e # es) = span_starts es"

text \<open>The calls of the original: the arguments as they read at the call, and the context.\<close>

fun original_calls :: "event list \<Rightarrow> (message_value call_args \<times> otel_context) list" where
  "original_calls [] = []"
| "original_calls (OriginalCalled a v c # es) = (v, c) # original_calls es"
| "original_calls (e # es) = original_calls es"

text \<open>The arguments of those calls as they were passed.\<close>

fun original_arguments :: "event list \<Rightarrow> addr call_args list" where
  "original_arguments [] = []"
| "original_arguments (OriginalCalled a v c # es) = a # original_arguments es"
| "original_arguments (e # es) = original_arguments es"

fun hook_calls :: "event list \<Rightarrow> (hook_kind \<times> nat \<times> string \<times> message_value) list" where
  "hook_calls [] = []"
| "hook_calls (HookCalled hk s t m # es) = (hk, s, t, m) # hook_calls es"
| "hook_calls (e # es) = hook_calls es"

fun diag_errors :: "event list \<Rightarrow> (string \<times> jsval) list" where
  "diag_errors [] = []"
| "diag_errors (DiagError t e # es) = (t, e) # diag_errors es"
| "diag_errors (e # es) = diag_errors es"

text \<open>The statuses set on a span and the number of times it was ended.\<close>

fun statuses_of :: "nat \<Rightarrow> event list \<Rightarrow> jsval list" where
  "statuses_of s [] = []"
| "statuses_of s (StatusSet s' msg # es) =
     (if s = s' then msg # statuses_of s es else statuses_of s es)"
| "statuses_of s (e # es) = statuses_of s es"

definition ends_of :: "nat \<Rightarrow> event list \<Rightarrow> nat" where
  "ends_of s es = count_list es (SpanEnded s)"

section \<open>The calls of each operation, written out\<close>

text \<open>
  The lists of calls that the functions above add to the trace, and the stores they
  leave, as functions of their arguments and of the number of the next span. The lemmas
  of the next section prove that the functions add and leave exactly these.
\<close>

definition moduleVersionEvents :: "instrumentation \<Rightarrow> nat \<Rightarrow> event list" where
  "moduleVersionEvents inst span =
     (case moduleVersionAttributeName (config inst) of
        None \<Rightarrow> []
      | Some name \<Rightarrow>
          (case moduleVersion inst of None \<Rightarrow> [] | Some v \<Rightarrow> [AttributeSet span name v]))"

definition hookEvents ::
  "hook_kind \<Rightarrow> string \<Rightarrow> hook \<Rightarrow> nat \<Rightarrow> string \<Rightarrow> message_value \<Rightarrow> event list" where
  "hookEvents hk text h span topic m =
     HookCalled hk span topic m #
     map (\<lambda>kv. AttributeSet span (fst kv) (snd kv)) (hook_attributes (h span topic m)) @
     (case hook_throws (h span topic m) of
        None \<Rightarrow> []
      | Some e \<Rightarrow> if truthy e then [DiagError text e] else [])"

text \<open>
  The store \<^verbatim>\<open>_startProducerSpan\<close> leaves behind: the message has a header object,
  created when absent, and the context of the new span is injected into that object.
\<close>

definition producerStore :: "propagator \<Rightarrow> otel_context \<Rightarrow> nat \<Rightarrow> addr \<Rightarrow> store \<Rightarrow> store" where
  "producerStore P active span r st =
     (let (a, st1) = ensureHeaders r st
      in injectAt P (setSpan active (LocalSpan span)) a st1)"

definition producerSpanEvents ::
  "instrumentation \<Rightarrow> propagator \<Rightarrow> string \<Rightarrow> otel_context \<Rightarrow> nat \<Rightarrow> addr \<Rightarrow> store \<Rightarrow>
   event list" where
  "producerSpanEvents inst P topic active span r st =
     SpanStarted \<lparr>sp_id = span, sp_name = topic, sp_kind = PRODUCER,
                  sp_attributes = producerAttributes topic, sp_links = [],
                  sp_parent = getSpan active\<rparr> #
     moduleVersionEvents inst span @
     (case producerHook (config inst) of
        None \<Rightarrow> []
      | Some h \<Rightarrow>
          hookEvents ProducerHook ''kafkajs instrumentation: producerHook error'' h span topic
            (readMessage (producerStore P active span r st) r))"

definition consumerSpanEvents ::
  "instrumentation \<Rightarrow> string \<Rightarrow> message_value option \<Rightarrow> string \<Rightarrow> span_ref option \<Rightarrow>
   span_ref option \<Rightarrow> nat \<Rightarrow> event list" where
  "consumerSpanEvents inst topic msg operation parent link span =
     SpanStarted \<lparr>sp_id = span, sp_name = topic, sp_kind = CONSUMER,
                  sp_attributes = consumerAttributes topic operation,
                  sp_links = (case link of None \<Rightarrow> [] | Some l \<Rightarrow> [l]),
                  sp_parent = parent\<rparr> #
     moduleVersionEvents inst span @
     (case consumerHook (config inst) of
        None \<Rightarrow> []
      | Some h \<Rightarrow>
          (case msg of
             None \<Rightarrow> []
           | Some m \<Rightarrow>
               hookEvents ConsumerHook ''kafkajs instrumentation: consumerHook error'' h span
                 topic m))"

text \<open>A list of messages, span \<open>n\<close> for the first, the next span for the next.\<close>

fun producerStoreFrom ::
  "propagator \<Rightarrow> otel_context \<Rightarrow> nat \<Rightarrow> addr list \<Rightarrow> store \<Rightarrow> store" where
  "producerStoreFrom P active n [] st = st"
| "producerStoreFrom P active n (r # rs) st =
     producerStoreFrom P active (Suc n) rs (producerStore P active n r st)"

fun producerEventsFrom ::
  "instrumentation \<Rightarrow> propagator \<Rightarrow> string \<Rightarrow> otel_context \<Rightarrow> nat \<Rightarrow> addr list \<Rightarrow> store \<Rightarrow>
   event list" where
  "producerEventsFrom inst P topic active n [] st = []"
| "producerEventsFrom inst P topic active n (r # rs) st =
     producerSpanEvents inst P topic active n r st @
     producerEventsFrom inst P topic active (Suc n) rs (producerStore P active n r st)"

fun batchStoreFrom ::
  "propagator \<Rightarrow> otel_context \<Rightarrow> nat \<Rightarrow> addr topic_messages list \<Rightarrow> store \<Rightarrow> store" where
  "batchStoreFrom P active n [] st = st"
| "batchStoreFrom P active n (tm # tms) st =
     batchStoreFrom P active (n + length (tm_messages tm)) tms
       (producerStoreFrom P active n (tm_messages tm) st)"

fun batchEventsFrom ::
  "instrumentation \<Rightarrow> propagator \<Rightarrow> otel_context \<Rightarrow> nat \<Rightarrow> addr topic_messages list \<Rightarrow>
   store \<Rightarrow> event list" where
  "batchEventsFrom inst P active n [] st = []"
| "batchEventsFrom inst P active n (tm # tms) st =
     producerEventsFrom inst P (tm_topic tm) active n (tm_messages tm) st @
     batchEventsFrom inst P active (n + length (tm_messages tm)) tms
       (producerStoreFrom P active n (tm_messages tm) st)"

text \<open>The topic groups of a batch: \<^verbatim>\<open>batch.topicMessages || []\<close>.\<close>

definition topicGroups :: "'m producer_batch \<Rightarrow> 'm topic_messages list" where
  "topicGroups b = (case pb_topicMessages b of None \<Rightarrow> [] | Some tms \<Rightarrow> tms)"

text \<open>The messages of a batch, and its (topic, message) pairs, group by group.\<close>

definition batchMessages :: "'m topic_messages list \<Rightarrow> 'm list" where
  "batchMessages tms = concat (map tm_messages tms)"

definition flattened :: "'m topic_messages list \<Rightarrow> (string \<times> 'm) list" where
  "flattened tms = concat (map (\<lambda>tm. map (Pair (tm_topic tm)) (tm_messages tm)) tms)"

definition batchSize :: "'m topic_messages list \<Rightarrow> nat" where
  "batchSize tms = length (concat (map tm_messages tms))"

definition processEventsFrom ::
  "instrumentation \<Rightarrow> string \<Rightarrow> propagator \<Rightarrow> otel_context \<Rightarrow> nat \<Rightarrow>
   message_value list \<Rightarrow> event list" where
  "processEventsFrom inst topic P inner n ms =
     concat (map (\<lambda>(i, m).
        consumerSpanEvents inst topic (Some m) ''process'' (getSpan inner)
          (getSpan (propagation_extract P ROOT_CONTEXT (mv_headers m))) i)
        (enumerate n ms))"

text \<open>What \<^verbatim>\<open>_endSpansOnPromise\<close> does for a result of the original call.\<close>

definition finalizerEvents :: "nat list \<Rightarrow> call_result \<Rightarrow> event list" where
  "finalizerEvents spans r =
     (case r of
        Throws e \<Rightarrow> []
      | Returns Pending \<Rightarrow> []
      | Returns (Fulfilled v) \<Rightarrow> map SpanEnded spans
      | Returns (Rejected reason) \<Rightarrow>
          (case errorMessageOf reason of
             Inl e \<Rightarrow> map SpanEnded spans
           | Inr msg \<Rightarrow> map (\<lambda>s. StatusSet s msg) spans @ map SpanEnded spans))"

definition finalResult :: "call_result \<Rightarrow> call_result" where
  "finalResult r =
     (case r of
        Returns (Rejected reason) \<Rightarrow>
          (case errorMessageOf reason of
             Inl e \<Rightarrow> Returns (Rejected e)
           | Inr msg \<Rightarrow> Returns (Rejected reason))
      | _ \<Rightarrow> r)"

text \<open>The calls made while spans are started: none of them ends a span.\<close>

fun setup_event :: "event \<Rightarrow> bool" where
  "setup_event (SpanStarted s) = True"
| "setup_event (AttributeSet s k v) = True"
| "setup_event (HookCalled hk s t m) = True"
| "setup_event (DiagError t e) = True"
| "setup_event e = False"

text \<open>The original call returned a promise, and the promise has settled.\<close>

definition settled :: "call_result \<Rightarrow> bool" where
  "settled r = (case r of Throws e \<Rightarrow> False | Returns Pending \<Rightarrow> False | Returns p \<Rightarrow> True)"

text \<open>
  The error message in the words of the specification: the rejection value itself if
  it is text, else its \<^verbatim>\<open>message\<close> field if the value is an object that has one,
  else undefined.
\<close>

definition bestEffortMessage :: "jsval \<Rightarrow> jsval" where
  "bestEffortMessage reason =
     (case reason of
        JStr s \<Rightarrow> JStr s
      | JObj ps \<Rightarrow> (case map_of ps ''message'' of None \<Rightarrow> JUndefined | Some v \<Rightarrow> v)
      | _ \<Rightarrow> JUndefined)"

section \<open>Sample inputs\<close>

text \<open>
  A store in which every address holds a message with a value, no key and no header
  object, and in which no header object has been created yet.
\<close>

definition bareCell :: message where
  "bareCell = \<lparr>msg_key = None, msg_value = Some ''v'', msg_headers = None\<rparr>"

definition emptyStore :: store where
  "emptyStore =
     \<lparr>message_at = (\<lambda>r. bareCell), object_at = (\<lambda>a. emptyObject), next_object = 0\<rparr>"

definition emptyWorld :: world where
  "emptyWorld = \<lparr>next_span = 0, trace = [], store = emptyStore\<rparr>"

definition plainInstrumentation :: instrumentation where
  "plainInstrumentation =
     \<lparr>config = \<lparr>producerHook = None, consumerHook = None,
                 moduleVersionAttributeName = None\<rparr>,
      moduleVersion = None\<rparr>"

text \<open>
  A propagator with one field: it writes the active span under \<^verbatim>\<open>traceparent\<close> and
  reads a remote span back from it.
\<close>

definition headerPropagator :: propagator where
  "headerPropagator =
     \<lparr>prop_fields = (\<lambda>c. case ctx_span c of
                             None \<Rightarrow> []
                           | Some (LocalSpan n) \<Rightarrow> [(''traceparent'', replicate (Suc n) CHR ''1'')]
                           | Some (RemoteSpan s) \<Rightarrow> [(''traceparent'', s)]),
      prop_decode = (\<lambda>base get keys. case get ''traceparent'' of
                             None \<Rightarrow> base
                           | Some s \<Rightarrow> setSpan base (RemoteSpan s))\<rparr>"

text \<open>Consumed messages: one without headers, one with a Buffer under \<^verbatim>\<open>traceparent\<close>.\<close>

definition bareMessage :: message_value where
  "bareMessage = \<lparr>mv_key = None, mv_value = Some ''v'', mv_headers = None\<rparr>"

definition tracedHeaders :: js_object where
  "tracedHeaders = \<lparr>own = [(''traceparent'', HBuffer ''abc'')], inherited = objectPrototype\<rparr>"

definition tracedMessage :: message_value where
  "tracedMessage = \<lparr>mv_key = None, mv_value = Some ''v'', mv_headers = Some tracedHeaders\<rparr>"

definition barePayload :: each_message_payload where
  "barePayload = \<lparr>emp_topic = ''events'', emp_partition = 0, emp_message = bareMessage\<rparr>"

definition tracedPayload :: each_message_payload where
  "tracedPayload = \<lparr>emp_topic = ''events'', emp_partition = 0, emp_message = tracedMessage\<rparr>"

definition eventsPayload :: each_batch_payload where
  "eventsPayload =
     \<lparr>ebp_batch = \<lparr>batch_topic = ''events'', batch_partition = 0,
                    batch_messages = [tracedMessage]\<rparr>\<rparr>"

text \<open>
  Produced messages are given by their addresses: one message, the same message
  listed twice, and two messages.
\<close>

definition ordersRecord :: "addr producer_record" where
  "ordersRecord = \<lparr>pr_topic = ''orders'', pr_messages = [0], pr_acks = None\<rparr>"

definition repeatedRecord :: "addr producer_record" where
  "repeatedRecord = \<lparr>pr_topic = ''orders'', pr_messages = [0, 0], pr_acks = None\<rparr>"

definition pairRecord :: "addr producer_record" where
  "pairRecord = \<lparr>pr_topic = ''orders'', pr_messages = [0, 1], pr_acks = None\<rparr>"

definition ordersBatch :: "addr producer_batch" where
  "ordersBatch =
     \<lparr>pb_topicMessages = Some [\<lparr>tm_topic = ''orders'', tm_messages = [0]\<rparr>],
      pb_acks = None\<rparr>"

definition pairBatch :: "addr producer_batch" where
  "pairBatch =
     \<lparr>pb_topicMessages = Some [\<lparr>tm_topic = ''orders'', tm_messages = [0]\<rparr>,
                               \<lparr>tm_topic = ''audit'', tm_messages = [1]\<rparr>],
      pb_acks = None\<rparr>"

definition emptyBatch :: "'m producer_batch" where
  "emptyBatch = \<lparr>pb_topicMessages = None, pb_acks = None\<rparr>"

definition throwsBoom :: original where
  "throwsBoom args c = Throws (JStr ''boom'')"

definition fulfils :: original where
  "fulfils args c = Returns (Fulfilled JUndefined)"

definition rejectsWithNull :: original where
  "rejectsWithNull args c = Returns (Rejected JNull)"

text \<open>A hook that throws \<^verbatim>\<open>null\<close>.\<close>

definition nullThrowingHook :: hook where
  "nullThrowingHook span topic m = \<lparr>hook_attributes = [], hook_throws = Some JNull\<rparr>"

definition hookedInstrumentation :: instrumentation where
  "hookedInstrumentation =
     \<lparr>config = \<lparr>producerHook = Some nullThrowingHook, consumerHook = Some nullThrowingHook,
                 moduleVersionAttributeName = None\<rparr>,
      moduleVersion = None\<rparr>"

section \<open>What injection leaves in the store\<close>

text \<open>
  An assignment \<^verbatim>\<open>c[key] = value\<close> takes effect when the key is an own property of
  \<open>c\<close>, or is not inherited, or is inherited as an assignable property.
\<close>

definition assignable :: "js_object \<Rightarrow> string \<Rightarrow> bool" where
  "assignable c k =
     (case map_of (own c) k of
        Some v \<Rightarrow> True
      | None \<Rightarrow> (case map_of (inherited c) k of Some p \<Rightarrow> inh_assignable p | None \<Rightarrow> True))"

text \<open>
  The entries that arrive in the object \<open>c\<close> when the context made of the active
  context and the span \<open>span\<close> is injected into it: the propagator's fields for that
  context, as strings, in the order they are written.
\<close>

definition injectedEntries ::
  "propagator \<Rightarrow> otel_context \<Rightarrow> nat \<Rightarrow> js_object \<Rightarrow> (string \<times> header_value) list" where
  "injectedEntries P active span c =
     map (\<lambda>kv. (fst kv, HString (snd kv)))
       (filter (\<lambda>kv. assignable c (fst kv))
          (prop_fields P (active\<lparr>ctx_span := Some (LocalSpan span)\<rparr>)))"

text \<open>
  The header object a message holds, or the empty object it is about to be given.
\<close>

definition headerObject :: "store \<Rightarrow> addr \<Rightarrow> js_object" where
  "headerObject st r =
     (case msg_headers (message_at st r) of None \<Rightarrow> emptyObject | Some a \<Rightarrow> object_at st a)"

text \<open>
  The messages of a call share nothing: they are distinct objects, no two of them hold
  the same header object, and the header objects they hold are among those created so
  far.
\<close>

definition unshared :: "store \<Rightarrow> addr list \<Rightarrow> bool" where
  "unshared st rs =
     (distinct rs \<and>
      list_all (\<lambda>r. case msg_headers (message_at st r) of
                       None \<Rightarrow> True | Some a \<Rightarrow> a < next_object st) rs \<and>
      distinct (List.map_filter (\<lambda>r. msg_headers (message_at st r)) rs))"

text \<open>
  A message reads as injected with the span \<open>span\<close>, against the store \<open>st\<close> it was
  found in: key and value are as they were, and it has a header object whose own
  entries are those of the header object it had (none if it had none) overridden by
  the injected entries, with the inherited properties as they were.
\<close>

definition injectedWith ::
  "propagator \<Rightarrow> otel_context \<Rightarrow> store \<Rightarrow> message_value \<Rightarrow> nat \<times> addr \<Rightarrow> bool" where
  "injectedWith P active st m p =
     (case p of (span, r) \<Rightarrow>
        mv_key m = msg_key (message_at st r) \<and>
        mv_value m = msg_value (message_at st r) \<and>
        (case mv_headers m of
           None \<Rightarrow> False
         | Some c \<Rightarrow>
             map_of (own c) =
               map_of (own (headerObject st r)) ++
               map_of (rev (injectedEntries P active span (headerObject st r))) \<and>
             inherited c = inherited (headerObject st r)))"

text \<open>The message at \<open>r\<close> in \<open>st\<close> as it reads once the span \<open>span\<close> is injected.\<close>

definition injectedMessage ::
  "propagator \<Rightarrow> otel_context \<Rightarrow> nat \<Rightarrow> store \<Rightarrow> addr \<Rightarrow> message_value" where
  "injectedMessage P active span st r =
     \<lparr>mv_key = msg_key (message_at st r), mv_value = msg_value (message_at st r),
      mv_headers =
        Some (propagation_inject P (setSpan active (LocalSpan span)) (headerObject st r))\<rparr>"

text \<open>
  The address of the header object of a message once it has one: the one it holds, or
  the next address not in use.
\<close>

definition headerAddress :: "store \<Rightarrow> addr \<Rightarrow> addr" where
  "headerAddress st r =
     (case msg_headers (message_at st r) of None \<Rightarrow> next_object st | Some a \<Rightarrow> a)"

section \<open>The trace of each function\<close>

lemma emit_eq:
  "emit e w = \<lparr>next_span = next_span w, trace = trace w @ [e], store = store w\<rparr>"
  by (simp add: emit_def)

lemma fold_emit:
  "fold (\<lambda>x. emit (f x)) xs w =
     \<lparr>next_span = next_span w, trace = trace w @ map f xs, store = store w\<rparr>"
  by (induction xs arbitrary: w) (simp_all add: emit_eq)

lemma addModuleVersion_eq:
  "addModuleVersion inst span w =
     \<lparr>next_span = next_span w, trace = trace w @ moduleVersionEvents inst span,
      store = store w\<rparr>"
  by (simp add: addModuleVersion_def moduleVersionEvents_def emit_eq split: option.splits)

lemma startSpan_eq:
  "startSpan name kind attrs links ctx active w =
     (next_span w,
      \<lparr>next_span = Suc (next_span w),
       trace = trace w @
         [SpanStarted \<lparr>sp_id = next_span w, sp_name = name, sp_kind = kind,
                       sp_attributes = attrs, sp_links = links,
                       sp_parent = getSpan (case ctx of None \<Rightarrow> active | Some c \<Rightarrow> c)\<rparr>],
       store = store w\<rparr>)"
  by (simp add: startSpan_def emit_eq Let_def)

lemma hook_eq:
  "safeExecuteInTheMiddle (callHook hk h span topic m) (logHookError text) True w =
     (None, \<lparr>next_span = next_span w, trace = trace w @ hookEvents hk text h span topic m,
             store = store w\<rparr>)"
  by (simp add: safeExecuteInTheMiddle_def callHook_def logHookError_def hookEvents_def
        fold_emit emit_eq Let_def split: option.splits)

lemma startProducerSpan_eq:
  "startProducerSpan inst P topic r active w =
     Inr (next_span w,
          \<lparr>next_span = Suc (next_span w),
           trace = trace w @ producerSpanEvents inst P topic active (next_span w) r (store w),
           store = producerStore P active (next_span w) r (store w)\<rparr>)"
  by (simp add: startProducerSpan_def startSpan_eq addModuleVersion_eq hook_eq
        producerStore_def producerSpanEvents_def Let_def split: option.splits prod.splits)

lemma startConsumerSpan_eq:
  "startConsumerSpan inst topic msg operation ctx link active w =
     Inr (next_span w,
          \<lparr>next_span = Suc (next_span w),
           trace = trace w @
             consumerSpanEvents inst topic msg operation
               (getSpan (case ctx of None \<Rightarrow> active | Some c \<Rightarrow> c)) link (next_span w),
           store = store w\<rparr>)"
  by (simp add: startConsumerSpan_def startSpan_eq addModuleVersion_eq hook_eq
        consumerSpanEvents_def Let_def split: option.splits)

lemma upt_cons: "[n ..< Suc (n + k)] = n # [Suc n ..< Suc (n + k)]"
  by (simp add: upt_rec [of n] del: upt_Suc)

lemma upt_append: "[n ..< n + a] @ [n + a ..< n + (a + b)] = [n ..< n + (a + b)]"
  using upt_add_eq_append [of n "n + a" b] by (simp add: add.assoc)

lemma startProducerSpans_eq:
  "startProducerSpans inst P topic rs active w =
     Inr ([next_span w ..< next_span w + length rs],
          \<lparr>next_span = next_span w + length rs,
           trace = trace w @ producerEventsFrom inst P topic active (next_span w) rs (store w),
           store = producerStoreFrom P active (next_span w) rs (store w)\<rparr>)"
proof (induction rs arbitrary: w)
  case Nil
  show ?case by simp
next
  case (Cons r rs)
  show ?case
    by (simp add: startProducerSpan_eq Cons.IH upt_cons del: upt_Suc)
qed

lemma startBatchSpans_eq:
  "startBatchSpans inst P tms active w =
     Inr ([next_span w ..< next_span w + batchSize tms],
          \<lparr>next_span = next_span w + batchSize tms,
           trace = trace w @ batchEventsFrom inst P active (next_span w) tms (store w),
           store = batchStoreFrom P active (next_span w) tms (store w)\<rparr>)"
proof (induction tms arbitrary: w)
  case Nil
  show ?case by (simp add: batchSize_def)
next
  case (Cons tm tms)
  show ?case
    by (simp add: startProducerSpans_eq Cons.IH add.assoc upt_append)
      (simp add: batchSize_def)
qed

lemma startProcessSpans_eq:
  "startProcessSpans inst topic P ms inner w =
     Inr ([next_span w ..< next_span w + length ms],
          \<lparr>next_span = next_span w + length ms,
           trace = trace w @ processEventsFrom inst topic P inner (next_span w) ms,
           store = store w\<rparr>)"
proof (induction ms arbitrary: w)
  case Nil
  show ?case by (simp add: processEventsFrom_def)
next
  case (Cons m ms)
  show ?case
    by (simp add: startConsumerSpan_eq Cons.IH processEventsFrom_def upt_cons Let_def
          del: upt_Suc)
qed

lemma endSpansOnPromise_eq:
  "endSpansOnPromise spans p w =
     (case finalResult (Returns p) of Returns p' \<Rightarrow> p' | Throws e \<Rightarrow> p,
      \<lparr>next_span = next_span w, trace = trace w @ finalizerEvents spans (Returns p),
       store = store w\<rparr>)"
  by (simp add: endSpansOnPromise_def finalResult_def finalizerEvents_def endAll_def
        setStatusAll_def fold_emit split: promise.splits sum.splits)

lemma finish_eq:
  "returned (case applyOriginal orig args c w of
               Inl t \<Rightarrow> Inl t
             | Inr (p, w2) \<Rightarrow> Inr (endSpansOnPromise spans p w2)) =
     (finalResult (orig (readArgs (store w) args) c),
      \<lparr>next_span = next_span w,
       trace = trace w @ OriginalCalled args (readArgs (store w) args) c #
               finalizerEvents spans (orig (readArgs (store w) args) c),
       store = store w\<rparr>)"
  by (simp add: applyOriginal_def returned_def endSpansOnPromise_eq emit_eq Let_def
        finalResult_def finalizerEvents_def split: call_result.splits promise.splits sum.splits)

lemma send_eq:
  "send inst P orig active rcd w =
     (let n = next_span w;
          rs = pr_messages rcd;
          st = producerStoreFrom P active n rs (store w);
          received = SendArgs (readRecord st rcd)
      in (finalResult (orig received active),
          \<lparr>next_span = n + length rs,
           trace = trace w @ producerEventsFrom inst P (pr_topic rcd) active n rs (store w) @
             OriginalCalled (SendArgs rcd) received active #
             finalizerEvents [n ..< n + length rs] (orig received active),
           store = st\<rparr>))"
  by (simp add: send_def startProducerSpans_eq finish_eq Let_def)

lemma sendBatch_eq:
  "sendBatch inst P orig active b w =
     (let n = next_span w;
          tms = topicGroups b;
          st = batchStoreFrom P active n tms (store w);
          received = SendBatchArgs (readBatch st b)
      in (finalResult (orig received active),
          \<lparr>next_span = n + batchSize tms,
           trace = trace w @ batchEventsFrom inst P active n tms (store w) @
             OriginalCalled (SendBatchArgs b) received active #
             finalizerEvents [n ..< n + batchSize tms] (orig received active),
           store = st\<rparr>))"
  by (simp add: sendBatch_def startBatchSpans_eq finish_eq Let_def topicGroups_def)

lemma eachMessage_eq:
  "eachMessage inst P orig active payload w =
     (let n = next_span w;
          m = emp_message payload;
          propagatedContext = propagation_extract P ROOT_CONTEXT (mv_headers m);
          inner = setSpan propagatedContext (LocalSpan n)
      in (finalResult (orig (EachMessageArgs payload) inner),
          \<lparr>next_span = Suc n,
           trace = trace w @
             consumerSpanEvents inst (emp_topic payload) (Some m) ''process''
               (getSpan propagatedContext) None n @
             OriginalCalled (EachMessageArgs payload) (EachMessageArgs payload) inner #
             finalizerEvents [n] (orig (EachMessageArgs payload) inner),
           store = store w\<rparr>))"
  by (simp add: eachMessage_def startConsumerSpan_eq finish_eq Let_def)

lemma eachBatch_eq:
  "eachBatch inst P orig active payload w =
     (let n = next_span w;
          topic = batch_topic (ebp_batch payload);
          ms = batch_messages (ebp_batch payload);
          inner = setSpan active (LocalSpan n)
      in (finalResult (orig (EachBatchArgs payload) inner),
          \<lparr>next_span = Suc n + length ms,
           trace = trace w @
             consumerSpanEvents inst topic None ''receive'' (getSpan ROOT_CONTEXT) None n @
             processEventsFrom inst topic P inner (Suc n) ms @
             OriginalCalled (EachBatchArgs payload) (EachBatchArgs payload) inner #
             finalizerEvents (n # [Suc n ..< Suc n + length ms])
               (orig (EachBatchArgs payload) inner),
           store = store w\<rparr>))"
  by (simp add: eachBatch_def startConsumerSpan_eq startProcessSpans_eq finish_eq Let_def)

lemma new_events_eq [simp]:
  "new_events w \<lparr>next_span = k, trace = trace w @ es, store = st\<rparr> = es"
  by (simp add: new_events_def)

lemma span_starts_append: "span_starts (xs @ ys) = span_starts xs @ span_starts ys"
  by (induction xs rule: span_starts.induct) simp_all

lemma original_calls_append:
  "original_calls (xs @ ys) = original_calls xs @ original_calls ys"
  by (induction xs rule: original_calls.induct) simp_all

lemma hook_calls_append: "hook_calls (xs @ ys) = hook_calls xs @ hook_calls ys"
  by (induction xs rule: hook_calls.induct) simp_all

lemma diag_errors_append: "diag_errors (xs @ ys) = diag_errors xs @ diag_errors ys"
  by (induction xs rule: diag_errors.induct) simp_all

lemma statuses_of_append: "statuses_of s (xs @ ys) = statuses_of s xs @ statuses_of s ys"
  by (induction s xs rule: statuses_of.induct) simp_all

lemma ends_of_Nil: "ends_of s [] = 0"
  by (simp add: ends_of_def)

lemma ends_of_Cons:
  "ends_of s (e # es) = (if e = SpanEnded s then 1 else 0) + ends_of s es"
  by (simp add: ends_of_def)

lemma ends_of_append: "ends_of s (xs @ ys) = ends_of s xs + ends_of s ys"
  by (induction xs) (simp_all add: ends_of_Nil ends_of_Cons)

lemma setup_no_ends: "list_all setup_event es \<Longrightarrow> ends_of s es = 0"
proof (induction es)
  case Nil
  show ?case by (simp add: ends_of_Nil)
next
  case (Cons e es)
  then show ?case by (cases e) (simp_all add: ends_of_Cons)
qed

lemma setup_no_calls: "list_all setup_event es \<Longrightarrow> original_calls es = []"
  by (induction es rule: original_calls.induct) simp_all

lemma setup_no_statuses: "list_all setup_event es \<Longrightarrow> statuses_of s es = []"
  by (induction s es rule: statuses_of.induct) simp_all

lemma setup_moduleVersionEvents: "list_all setup_event (moduleVersionEvents inst s)"
  by (simp add: moduleVersionEvents_def split: option.splits)

lemma setup_hookEvents: "list_all setup_event (hookEvents hk text h s topic m)"
  by (simp add: hookEvents_def list_all_iff split: option.splits) auto

lemma setup_producerSpanEvents:
  "list_all setup_event (producerSpanEvents inst P topic active s r st)"
  by (simp add: producerSpanEvents_def setup_moduleVersionEvents setup_hookEvents
        split: option.splits)

lemma setup_consumerSpanEvents:
  "list_all setup_event (consumerSpanEvents inst topic msg operation parent link s)"
  by (simp add: consumerSpanEvents_def setup_moduleVersionEvents setup_hookEvents
        split: option.splits)

lemma setup_producerEventsFrom:
  "list_all setup_event (producerEventsFrom inst P topic active n rs st)"
  by (induction rs arbitrary: n st) (simp_all add: setup_producerSpanEvents)

lemma setup_batchEventsFrom: "list_all setup_event (batchEventsFrom inst P active n tms st)"
  by (induction tms arbitrary: n st) (simp_all add: setup_producerEventsFrom)

lemma setup_processEventsFrom:
  "list_all setup_event (processEventsFrom inst topic P inner n ms)"
  by (induction ms arbitrary: n)
     (simp_all add: processEventsFrom_def setup_consumerSpanEvents)

lemma decoration_no_starts:
  "span_starts (map (\<lambda>kv. AttributeSet s (fst kv) (snd kv)) xs) = []"
  by (induction xs) simp_all

lemma span_starts_moduleVersionEvents: "span_starts (moduleVersionEvents inst s) = []"
  by (simp add: moduleVersionEvents_def split: option.splits)

lemma span_starts_hookEvents: "span_starts (hookEvents hk text h s topic m) = []"
  by (simp add: hookEvents_def span_starts_append decoration_no_starts split: option.splits)

lemma span_starts_producerSpanEvents:
  "span_starts (producerSpanEvents inst P topic active s r st) =
     [\<lparr>sp_id = s, sp_name = topic, sp_kind = PRODUCER,
       sp_attributes = producerAttributes topic, sp_links = [],
       sp_parent = getSpan active\<rparr>]"
  by (simp add: producerSpanEvents_def span_starts_append span_starts_moduleVersionEvents
        span_starts_hookEvents split: option.splits)

lemma span_starts_consumerSpanEvents:
  "span_starts (consumerSpanEvents inst topic msg operation parent link s) =
     [\<lparr>sp_id = s, sp_name = topic, sp_kind = CONSUMER,
       sp_attributes = consumerAttributes topic operation,
       sp_links = (case link of None \<Rightarrow> [] | Some l \<Rightarrow> [l]),
       sp_parent = parent\<rparr>]"
  by (simp add: consumerSpanEvents_def span_starts_append span_starts_moduleVersionEvents
        span_starts_hookEvents split: option.splits)

lemma span_starts_producerEventsFrom:
  "span_starts (producerEventsFrom inst P topic active n rs st) =
     map (\<lambda>(i, m). \<lparr>sp_id = i, sp_name = topic, sp_kind = PRODUCER,
                     sp_attributes = producerAttributes topic, sp_links = [],
                     sp_parent = getSpan active\<rparr>) (enumerate n rs)"
  by (induction rs arbitrary: n st)
     (simp_all add: span_starts_append span_starts_producerSpanEvents)

lemma span_starts_processEventsFrom:
  "span_starts (processEventsFrom inst topic P inner n ms) =
     map (\<lambda>(i, m). \<lparr>sp_id = i, sp_name = topic, sp_kind = CONSUMER,
                     sp_attributes = consumerAttributes topic ''process'',
                     sp_links =
                       (case getSpan (propagation_extract P ROOT_CONTEXT (mv_headers m)) of
                          None \<Rightarrow> [] | Some l \<Rightarrow> [l]),
                     sp_parent = getSpan inner\<rparr>) (enumerate n ms)"
  by (induction ms arbitrary: n)
     (simp_all add: processEventsFrom_def span_starts_append span_starts_consumerSpanEvents)

lemma enumerate_Pair:
  "map f (enumerate n (map (Pair t) ms)) = map (\<lambda>(i, m). f (i, (t, m))) (enumerate n ms)"
  by (induction ms arbitrary: n) simp_all

lemma span_starts_batchEventsFrom:
  "span_starts (batchEventsFrom inst P active n tms st) =
     map (\<lambda>(i, (topic, m)). \<lparr>sp_id = i, sp_name = topic, sp_kind = PRODUCER,
                     sp_attributes = producerAttributes topic, sp_links = [],
                     sp_parent = getSpan active\<rparr>) (enumerate n (flattened tms))"
proof (induction tms arbitrary: n st)
  case Nil
  show ?case by (simp add: flattened_def)
next
  case (Cons tm tms)
  have "flattened (tm # tms) = map (Pair (tm_topic tm)) (tm_messages tm) @ flattened tms"
    by (simp add: flattened_def)
  then show ?case
    by (simp add: span_starts_append span_starts_producerEventsFrom Cons.IH
          enumerate_append_eq enumerate_Pair)
qed

lemma span_starts_finalizerEvents: "span_starts (finalizerEvents spans r) = []"
proof -
  have a: "span_starts (map SpanEnded xs) = []" for xs
    by (induction xs) simp_all
  have b: "span_starts (map (\<lambda>s. StatusSet s msg) xs) = []" for xs msg
    by (induction xs) simp_all
  show ?thesis
    by (simp add: finalizerEvents_def span_starts_append a b
          split: call_result.splits promise.splits sum.splits)
qed

lemma original_calls_finalizerEvents: "original_calls (finalizerEvents spans r) = []"
proof -
  have a: "original_calls (map SpanEnded xs) = []" for xs
    by (induction xs) simp_all
  have b: "original_calls (map (\<lambda>s. StatusSet s msg) xs) = []" for xs msg
    by (induction xs) simp_all
  show ?thesis
    by (simp add: finalizerEvents_def original_calls_append a b
          split: call_result.splits promise.splits sum.splits)
qed

lemma ends_of_finalizerEvents:
  "ends_of s (finalizerEvents spans r) = (if settled r then count_list spans s else 0)"
proof -
  have a: "ends_of s (map SpanEnded xs) = count_list xs s" for xs
    by (induction xs) (simp_all add: ends_of_Nil ends_of_Cons)
  have b: "ends_of s (map (\<lambda>s. StatusSet s msg) xs) = 0" for xs msg
    by (induction xs) (simp_all add: ends_of_Nil ends_of_Cons)
  show ?thesis
    by (simp add: finalizerEvents_def settled_def ends_of_append ends_of_Nil a b
          split: call_result.splits promise.splits sum.splits)
qed

lemma count_distinct: "distinct xs \<Longrightarrow> x \<in> set xs \<Longrightarrow> count_list xs x = 1"
  by (induction xs) (auto simp: count_list_0_iff)

lemma operation_shape:
  assumes ids: "map sp_id (span_starts pre) = spans"
    and dist: "distinct spans"
    and pre: "list_all setup_event pre"
  shows "original_calls (pre @ OriginalCalled args a c # finalizerEvents spans r) = [(a, c)] \<and>
         (\<forall>s \<in> set (span_starts (pre @ OriginalCalled args a c # finalizerEvents spans r)).
            ends_of (sp_id s) (pre @ OriginalCalled args a c # finalizerEvents spans r) =
              (if settled r then 1 else 0))"
proof -
  let ?new = "pre @ OriginalCalled args a c # finalizerEvents spans r"
  have calls: "original_calls ?new = [(a, c)]"
    by (simp add: original_calls_append setup_no_calls [OF pre]
          original_calls_finalizerEvents)
  have starts: "span_starts ?new = span_starts pre"
    by (simp add: span_starts_append span_starts_finalizerEvents)
  have ends: "ends_of s ?new = (if settled r then count_list spans s else 0)" for s
    by (simp add: ends_of_append ends_of_Cons setup_no_ends [OF pre]
          ends_of_finalizerEvents)
  have "ends_of (sp_id s) ?new = (if settled r then 1 else 0)"
    if "s \<in> set (span_starts pre)" for s
  proof -
    from that ids have "sp_id s \<in> set spans" by auto
    with dist show ?thesis by (simp add: ends count_distinct)
  qed
  with calls starts show ?thesis by simp
qed

lemma finalResult_Throws: "finalResult (Throws e) = Throws e"
  by (simp add: finalResult_def)

lemma finalResult_Returns:
  "\<exists>p'. finalResult (Returns p) = Returns p' \<and> (p' = Pending \<longleftrightarrow> p = Pending)"
  by (simp add: finalResult_def split: promise.splits sum.splits)

lemma ids_enumerate:
  "(\<And>i x. sp_id (f i x) = i) \<Longrightarrow>
   map sp_id (map (\<lambda>(i, x). f i x) (enumerate n xs)) = [n ..< n + length xs]"
proof -
  assume a: "\<And>i x. sp_id (f i x) = i"
  have "map sp_id (map (\<lambda>(i, x). f i x) (enumerate n xs)) = map fst (enumerate n xs)"
    by (simp add: a split_def o_def)
  then show ?thesis by simp
qed

lemma operation_result:
  assumes r: "r = finalResult (orig a c)"
    and new: "new_events w w' = pre @ OriginalCalled args a c # finalizerEvents spans (orig a c)"
    and ids: "map sp_id (span_starts pre) = spans"
    and dist: "distinct spans"
    and pre: "list_all setup_event pre"
  shows "\<exists>a c. original_calls (new_events w w') = [(a, c)] \<and>
           (\<forall>e. orig a c = Throws e \<longrightarrow> r = Throws e) \<and>
           (\<forall>p. orig a c = Returns p \<longrightarrow>
                (\<exists>p'. r = Returns p' \<and> (p' = Pending \<longleftrightarrow> p = Pending))) \<and>
           (\<forall>s \<in> set (span_starts (new_events w w')).
              ends_of (sp_id s) (new_events w w') = (if settled (orig a c) then 1 else 0))"
proof -
  note shape = operation_shape [OF ids dist pre, of args a c "orig a c"]
  have t: "\<forall>e. orig a c = Throws e \<longrightarrow> r = Throws e"
    by (simp add: r finalResult_Throws)
  have p: "\<forall>p. orig a c = Returns p \<longrightarrow>
             (\<exists>p'. r = Returns p' \<and> (p' = Pending \<longleftrightarrow> p = Pending))"
    using finalResult_Returns by (simp add: r)
  from shape t p show ?thesis
    unfolding new by blast
qed


section \<open>The store after injection\<close>

text \<open>What a sequence of assignments leaves in an object.\<close>

lemma map_of_set_own: "map_of (set_own k v h) = (map_of h)(k \<mapsto> v)"
  by (induction h) (auto simp: fun_eq_iff)

lemma writeProperty_eq:
  "writeProperty k v c = (if assignable c k then c\<lparr>own := set_own k v (own c)\<rparr> else c)"
  by (simp add: writeProperty_def assignable_def split: option.splits)

lemma assignable_written:
  "assignable c k \<Longrightarrow> assignable (c\<lparr>own := set_own k v (own c)\<rparr>) k' = assignable c k'"
  by (simp add: assignable_def map_of_set_own split: option.splits)

lemma inject_fold:
  "map_of (own (fold (\<lambda>kv. writeProperty (fst kv) (HString (snd kv))) fs c)) =
     map_of (own c) ++
     map_of (rev (map (\<lambda>kv. (fst kv, HString (snd kv)))
                    (filter (\<lambda>kv. assignable c (fst kv)) fs))) \<and>
   inherited (fold (\<lambda>kv. writeProperty (fst kv) (HString (snd kv))) fs c) = inherited c"
proof (induction fs arbitrary: c)
  case Nil
  show ?case by simp
next
  case (Cons f fs)
  show ?case
  proof (cases "assignable c (fst f)")
    case True
    let ?c = "c\<lparr>own := set_own (fst f) (HString (snd f)) (own c)\<rparr>"
    have same: "(\<lambda>kv. assignable ?c (fst kv)) = (\<lambda>kv. assignable c (fst kv))"
      by (rule ext) (simp add: assignable_written [OF True])
    show ?thesis
      using Cons.IH [of ?c]
      by (simp add: writeProperty_eq True same map_of_set_own fun_eq_iff map_add_def
            split: option.splits)
  next
    case False
    then show ?thesis
      using Cons.IH [of c] by (simp add: writeProperty_eq)
  qed
qed

lemma propagation_inject_entries:
  "map_of (own (propagation_inject P (setSpan active (LocalSpan span)) c)) =
     map_of (own c) ++ map_of (rev (injectedEntries P active span c)) \<and>
   inherited (propagation_inject P (setSpan active (LocalSpan span)) c) = inherited c"
  using inject_fold [of "prop_fields P (setSpan active (LocalSpan span))" c]
  by (simp add: propagation_inject_def injectedEntries_def setSpan_def)

text \<open>One producer span: the message, its header object, and everything else.\<close>

lemma producerStore_cell:
  "message_at (producerStore P active span r st) r' =
     (if r' = r then (message_at st r)\<lparr>msg_headers := Some (headerAddress st r)\<rparr>
      else message_at st r')"
  by (cases "message_at st r")
     (simp add: producerStore_def ensureHeaders_def injectAt_def headerAddress_def Let_def
        split: option.splits)

lemma producerStore_object:
  "object_at (producerStore P active span r st) a =
     (if a = headerAddress st r
      then propagation_inject P (setSpan active (LocalSpan span)) (headerObject st r)
      else object_at st a)"
  by (simp add: producerStore_def ensureHeaders_def injectAt_def headerAddress_def
        headerObject_def Let_def split: option.splits)

lemma producerStore_next:
  "next_object (producerStore P active span r st) =
     (case msg_headers (message_at st r) of
        None \<Rightarrow> Suc (next_object st) | Some a \<Rightarrow> next_object st)"
  by (simp add: producerStore_def ensureHeaders_def injectAt_def Let_def split: option.splits)


lemma producerStoreFrom_untouched:
  assumes "r \<notin> set rs"
    and "msg_headers (message_at st r) = Some a"
    and "a < next_object st"
    and "\<forall>r' \<in> set rs. msg_headers (message_at st r') \<noteq> Some a"
  shows "message_at (producerStoreFrom P active n rs st) r = message_at st r \<and>
         object_at (producerStoreFrom P active n rs st) a = object_at st a"
  using assms
proof (induction rs arbitrary: n st)
  case Nil
  show ?case by simp
next
  case (Cons r' rs)
  let ?st = "producerStore P active n r' st"
  from Cons.prems have differ: "r \<noteq> r'" and notin: "r \<notin> set rs" by auto
  from Cons.prems have other: "headerAddress st r' \<noteq> a"
    by (auto simp: headerAddress_def split: option.splits)
  have cell: "message_at ?st r = message_at st r"
    using differ by (simp add: producerStore_cell)
  have object: "object_at ?st a = object_at st a"
    using other by (simp add: producerStore_object)
  have headers: "msg_headers (message_at ?st r) = Some a"
    using cell Cons.prems(2) by simp
  have below: "a < next_object ?st"
    using Cons.prems(3) by (simp add: producerStore_next split: option.splits)
  have others: "\<forall>r'' \<in> set rs. msg_headers (message_at ?st r'') \<noteq> Some a"
    using Cons.prems(4) other by (simp add: producerStore_cell)
  from Cons.IH [OF notin headers below others, of "Suc n"] cell object
  show ?case by simp
qed

lemma map_filter_Cons:
  "List.map_filter f (x # xs) =
     (case f x of None \<Rightarrow> List.map_filter f xs | Some y \<Rightarrow> y # List.map_filter f xs)"
  by (simp add: List.map_filter_def split: option.splits)

lemma in_map_filter:
  "r \<in> set rs \<Longrightarrow> f r = Some a \<Longrightarrow> a \<in> set (List.map_filter f rs)"
  by (induction rs) (auto simp: map_filter_Cons split: option.splits)

lemma unshared_Cons:
  assumes "unshared st (r # rs)"
  shows "r \<notin> set rs"
    and "\<forall>a. msg_headers (message_at st r) = Some a \<longrightarrow> a < next_object st"
    and "\<forall>r' \<in> set rs. \<forall>a. msg_headers (message_at st r') = Some a \<longrightarrow>
           a < next_object st \<and> msg_headers (message_at st r) \<noteq> Some a"
    and "unshared st rs"
proof -
  from assms show "r \<notin> set rs" by (simp add: unshared_def)
  from assms show "\<forall>a. msg_headers (message_at st r) = Some a \<longrightarrow> a < next_object st"
    by (auto simp: unshared_def split: option.splits)
  from assms have all: "list_all (\<lambda>r. case msg_headers (message_at st r) of
                       None \<Rightarrow> True | Some a \<Rightarrow> a < next_object st) rs"
    and dist: "distinct (List.map_filter (\<lambda>r. msg_headers (message_at st r)) (r # rs))"
    by (simp_all add: unshared_def)
  show "\<forall>r' \<in> set rs. \<forall>a. msg_headers (message_at st r') = Some a \<longrightarrow>
           a < next_object st \<and> msg_headers (message_at st r) \<noteq> Some a"
  proof (intro ballI allI impI)
    fix r' a
    assume r': "r' \<in> set rs" and a: "msg_headers (message_at st r') = Some a"
    from all r' a have "a < next_object st"
      by (auto simp: list_all_iff)
    moreover have "msg_headers (message_at st r) \<noteq> Some a"
    proof
      assume "msg_headers (message_at st r) = Some a"
      with dist have "a \<notin> set (List.map_filter (\<lambda>r. msg_headers (message_at st r)) rs)"
        by (simp add: map_filter_Cons)
      with in_map_filter [of r' rs "\<lambda>r. msg_headers (message_at st r)" a] r' a
      show False by simp
    qed
    ultimately show "a < next_object st \<and> msg_headers (message_at st r) \<noteq> Some a" ..
  qed
  from assms show "unshared st rs"
    by (auto simp: unshared_def map_filter_Cons split: option.splits)
qed

lemma unshared_step:
  assumes "unshared st (r # rs)"
  shows "unshared (producerStore P active n r st) rs"
proof -
  let ?st = "producerStore P active n r st"
  note u = unshared_Cons [OF assms]
  have cells: "message_at ?st r' = message_at st r'" if "r' \<in> set rs" for r'
    using that u(1) by (auto simp: producerStore_cell)
  have grows: "next_object st \<le> next_object ?st"
    by (simp add: producerStore_next split: option.splits)
  have same: "List.map_filter (\<lambda>r. msg_headers (message_at ?st r)) rs =
              List.map_filter (\<lambda>r. msg_headers (message_at st r)) rs"
    using cells by (induction rs) (simp_all add: List.map_filter_def)
  from u(4) have "distinct rs"
    and "distinct (List.map_filter (\<lambda>r. msg_headers (message_at st r)) rs)"
    by (simp_all add: unshared_def)
  moreover have "list_all (\<lambda>r. case msg_headers (message_at ?st r) of
                       None \<Rightarrow> True | Some a \<Rightarrow> a < next_object ?st) rs"
    using u(3) cells grows by (auto simp: list_all_iff split: option.splits)
  ultimately show ?thesis by (simp add: unshared_def same)
qed

lemma readMessage_producerStore:
  "readMessage (producerStore P active n r st) r = injectedMessage P active n st r"
  by (simp add: readMessage_def injectedMessage_def producerStore_cell producerStore_object)

lemma injectedMessage_step:
  assumes "unshared st (r # rs)" and "r' \<in> set rs"
  shows "injectedMessage P active i (producerStore P active n r st) r' =
         injectedMessage P active i st r'"
proof -
  let ?st = "producerStore P active n r st"
  note u = unshared_Cons [OF assms(1)]
  from assms(2) u(1) have differ: "r' \<noteq> r" by auto
  then have cell: "message_at ?st r' = message_at st r'"
    by (simp add: producerStore_cell)
  have "headerObject ?st r' = headerObject st r'"
  proof (cases "msg_headers (message_at st r')")
    case None
    then show ?thesis by (simp add: headerObject_def cell)
  next
    case (Some a)
    with u(3) assms(2) have "a < next_object st"
      and "msg_headers (message_at st r) \<noteq> Some a" by auto
    then have "a \<noteq> headerAddress st r"
      by (auto simp: headerAddress_def split: option.splits)
    with Some show ?thesis
      by (simp add: headerObject_def cell producerStore_object)
  qed
  with cell show ?thesis by (simp add: injectedMessage_def)
qed

lemma producerStoreFrom_unshared:
  "unshared st rs \<Longrightarrow>
   map (readMessage (producerStoreFrom P active n rs st)) rs =
     map (\<lambda>(i, r). injectedMessage P active i st r) (enumerate n rs)"
proof (induction rs arbitrary: n st)
  case Nil
  show ?case by simp
next
  case (Cons r rs)
  let ?st = "producerStore P active n r st"
  note u = unshared_Cons [OF Cons.prems]
  have headers: "msg_headers (message_at ?st r) = Some (headerAddress st r)"
    by (simp add: producerStore_cell)
  have below: "headerAddress st r < next_object ?st"
    using u(2) by (auto simp: headerAddress_def producerStore_next split: option.splits)
  have others: "\<forall>r' \<in> set rs. msg_headers (message_at ?st r') \<noteq> Some (headerAddress st r)"
  proof
    fix r'
    assume r': "r' \<in> set rs"
    with u(1) have "message_at ?st r' = message_at st r'"
      by (auto simp: producerStore_cell)
    moreover have "msg_headers (message_at st r') \<noteq> Some (headerAddress st r)"
      using u(3) r' by (auto simp: headerAddress_def split: option.splits)
    ultimately show "msg_headers (message_at ?st r') \<noteq> Some (headerAddress st r)" by simp
  qed
  from producerStoreFrom_untouched [OF u(1) headers below others, of P active "Suc n"]
  have "readMessage (producerStoreFrom P active (Suc n) rs ?st) r = readMessage ?st r"
    by (simp add: readMessage_def headers)
  then have head: "readMessage (producerStoreFrom P active (Suc n) rs ?st) r =
                   injectedMessage P active n st r"
    by (simp add: readMessage_producerStore)
  have tail: "map (readMessage (producerStoreFrom P active (Suc n) rs ?st)) rs =
              map (\<lambda>(i, r). injectedMessage P active i st r) (enumerate (Suc n) rs)"
  proof -
    have "map (\<lambda>(i, r). injectedMessage P active i ?st r) (enumerate (Suc n) rs) =
          map (\<lambda>(i, r). injectedMessage P active i st r) (enumerate (Suc n) rs)"
      using injectedMessage_step [OF Cons.prems]
      by (auto simp: enumerate_eq_zip dest: set_zip_rightD)
    with Cons.IH [OF unshared_step [OF Cons.prems, of P active n], where n = "Suc n"]
    show ?thesis by simp
  qed
  from head tail show ?case by simp
qed

lemma injectedWith_injectedMessage:
  "injectedWith P active st (injectedMessage P active span st r) (span, r)"
  by (simp add: injectedWith_def injectedMessage_def propagation_inject_entries)

text \<open>A list of messages, and the batch as it reads afterwards.\<close>

lemma producerStoreFrom_fold:
  "producerStoreFrom P active n rs st =
     fold (\<lambda>(i, r). producerStore P active i r) (enumerate n rs) st"
  by (induction rs arbitrary: n st) simp_all

lemma producerStoreFrom_append:
  "producerStoreFrom P active n (xs @ ys) st =
     producerStoreFrom P active (n + length xs) ys (producerStoreFrom P active n xs st)"
  by (induction xs arbitrary: n st) simp_all

lemma batchStoreFrom_flat:
  "batchStoreFrom P active n tms st = producerStoreFrom P active n (batchMessages tms) st"
  by (induction tms arbitrary: n st)
     (simp_all add: batchMessages_def producerStoreFrom_append)

lemma producerStoreFrom_kept:
  "msg_key (message_at (producerStoreFrom P active n rs st) r) = msg_key (message_at st r) \<and>
   msg_value (message_at (producerStoreFrom P active n rs st) r) = msg_value (message_at st r) \<and>
   (msg_headers (message_at st r) \<noteq> None \<longrightarrow>
      msg_headers (message_at (producerStoreFrom P active n rs st) r) \<noteq> None)"
proof (induction rs arbitrary: n st)
  case Nil
  show ?case by simp
next
  case (Cons r' rs)
  let ?st = "producerStore P active n r' st"
  have "msg_key (message_at ?st r) = msg_key (message_at st r)"
    and "msg_value (message_at ?st r) = msg_value (message_at st r)"
    and "msg_headers (message_at st r) \<noteq> None \<longrightarrow> msg_headers (message_at ?st r) \<noteq> None"
    by (simp_all add: producerStore_cell)
  with Cons.IH [of "Suc n" ?st] show ?case by simp
qed

lemma producerStoreFrom_headers:
  "r \<in> set rs \<Longrightarrow> msg_headers (message_at (producerStoreFrom P active n rs st) r) \<noteq> None"
proof (induction rs arbitrary: n st)
  case Nil
  then show ?case by simp
next
  case (Cons r' rs)
  let ?st = "producerStore P active n r' st"
  show ?case
  proof (cases "r = r'")
    case True
    have "msg_headers (message_at ?st r') \<noteq> None"
      by (simp add: producerStore_cell)
    with producerStoreFrom_kept [of P active "Suc n" rs ?st r'] True
    show ?thesis by simp
  next
    case False
    with Cons.prems have "r \<in> set rs" by simp
    from Cons.IH [OF this, of "Suc n" ?st] show ?thesis by simp
  qed
qed


lemma read_headers:
  "list_all (\<lambda>m. mv_headers m \<noteq> None)
     (map (readMessage (producerStoreFrom P active n rs st)) rs)"
  using producerStoreFrom_headers [of _ rs P active n st]
  by (auto simp: list_all_iff readMessage_def)

lemma read_unshared:
  assumes "unshared st rs"
  shows "list_all2 (injectedWith P active st)
           (map (readMessage (producerStoreFrom P active n rs st)) rs) (enumerate n rs)"
proof -
  have "list_all2 (injectedWith P active st)
          (map (\<lambda>(i, r). injectedMessage P active i st r) (enumerate n rs)) (enumerate n rs)"
    by (auto simp: list_all2_map1 list_all2_same injectedWith_injectedMessage)
  with producerStoreFrom_unshared [OF assms, of P active n] show ?thesis by simp
qed

lemma batchMessages_readBatch:
  "batchMessages (topicGroups (readBatch st b)) =
     map (readMessage st) (batchMessages (topicGroups b))"
  by (cases "pb_topicMessages b")
     (simp_all add: batchMessages_def topicGroups_def readBatch_def readGroup_def
        map_concat o_def)


section \<open>The finalizer, the producer calls and the hooks\<close>

lemma errorMessageOf_null: "errorMessageOf JNull = Inl nullTypeError"
  by (simp add: errorMessageOf_def)

lemma errorMessageOf_not_null:
  "reason \<noteq> JNull \<Longrightarrow> errorMessageOf reason = Inr (bestEffortMessage reason)"
  by (cases reason) (simp_all add: errorMessageOf_def bestEffortMessage_def split: option.splits)

lemma fulfilment_unchanged:
  "endSpansOnPromise spans (Fulfilled v) w =
     (Fulfilled v,
      \<lparr>next_span = next_span w, trace = trace w @ map SpanEnded spans, store = store w\<rparr>)"
  by (simp add: endSpansOnPromise_eq finalResult_def finalizerEvents_def)

lemma rejection_unchanged:
  "reason \<noteq> JNull \<Longrightarrow>
   endSpansOnPromise spans (Rejected reason) w =
     (Rejected reason,
      \<lparr>next_span = next_span w,
       trace = trace w @ map (\<lambda>s. StatusSet s (bestEffortMessage reason)) spans @
               map SpanEnded spans,
       store = store w\<rparr>)"
  by (simp add: endSpansOnPromise_eq finalResult_def finalizerEvents_def
        errorMessageOf_not_null)

lemma pending_unchanged: "endSpansOnPromise spans Pending w = (Pending, w)"
  by (simp add: endSpansOnPromise_def)

lemma readBatch_without_topicMessages:
  "pb_topicMessages b = None \<Longrightarrow> readBatch st b = \<lparr>pb_topicMessages = None, pb_acks = pb_acks b\<rparr>"
  by (simp add: readBatch_def)

lemma sendBatch_without_topicMessages:
  "pb_topicMessages b = None \<Longrightarrow>
   sendBatch inst P orig active b w =
     (finalResult (orig (SendBatchArgs (readBatch (store w) b)) active),
      \<lparr>next_span = next_span w,
       trace = trace w @ [OriginalCalled (SendBatchArgs b)
                            (SendBatchArgs (readBatch (store w) b)) active],
       store = store w\<rparr>)"
proof -
  assume none: "pb_topicMessages b = None"
  have fin: "finalizerEvents [] r = []" for r
    by (simp add: finalizerEvents_def split: call_result.splits promise.splits sum.splits)
  show ?thesis
    by (simp add: sendBatch_eq Let_def batchSize_def topicGroups_def none fin)
qed

text \<open>The calls of a send and of a sendBatch.\<close>

lemma send_new_events:
  "new_events w (snd (send inst P orig active rcd w)) =
     producerEventsFrom inst P (pr_topic rcd) active (next_span w) (pr_messages rcd) (store w) @
     OriginalCalled (SendArgs rcd)
       (SendArgs (readRecord
          (producerStoreFrom P active (next_span w) (pr_messages rcd) (store w)) rcd)) active #
     finalizerEvents [next_span w ..< next_span w + length (pr_messages rcd)]
       (orig (SendArgs (readRecord
          (producerStoreFrom P active (next_span w) (pr_messages rcd) (store w)) rcd)) active)"
  by (simp add: send_eq Let_def)

lemma send_store:
  "store (snd (send inst P orig active rcd w)) =
     producerStoreFrom P active (next_span w) (pr_messages rcd) (store w)"
  by (simp add: send_eq Let_def)

lemma sendBatch_new_events:
  "new_events w (snd (sendBatch inst P orig active b w)) =
     batchEventsFrom inst P active (next_span w) (topicGroups b) (store w) @
     OriginalCalled (SendBatchArgs b)
       (SendBatchArgs (readBatch
          (batchStoreFrom P active (next_span w) (topicGroups b) (store w)) b)) active #
     finalizerEvents [next_span w ..< next_span w + batchSize (topicGroups b)]
       (orig (SendBatchArgs (readBatch
          (batchStoreFrom P active (next_span w) (topicGroups b) (store w)) b)) active)"
  by (simp add: sendBatch_eq Let_def)

lemma sendBatch_store:
  "store (snd (sendBatch inst P orig active b w)) =
     batchStoreFrom P active (next_span w) (topicGroups b) (store w)"
  by (simp add: sendBatch_eq Let_def)

lemma original_arguments_append:
  "original_arguments (xs @ ys) = original_arguments xs @ original_arguments ys"
  by (induction xs rule: original_arguments.induct) simp_all

lemma setup_no_arguments: "list_all setup_event es \<Longrightarrow> original_arguments es = []"
  by (induction es rule: original_arguments.induct) simp_all

lemma original_arguments_finalizerEvents: "original_arguments (finalizerEvents spans r) = []"
proof -
  have a: "original_arguments (map SpanEnded xs) = []" for xs
    by (induction xs) simp_all
  have b: "original_arguments (map (\<lambda>s. StatusSet s msg) xs) = []" for xs msg
    by (induction xs) simp_all
  show ?thesis
    by (simp add: finalizerEvents_def original_arguments_append a b
          split: call_result.splits promise.splits sum.splits)
qed

lemma send_calls:
  "original_calls (new_events w (snd (send inst P orig active rcd w))) =
     [(SendArgs (readRecord
         (producerStoreFrom P active (next_span w) (pr_messages rcd) (store w)) rcd), active)]"
  by (simp add: send_new_events original_calls_append
        setup_no_calls [OF setup_producerEventsFrom] original_calls_finalizerEvents)

lemma send_arguments:
  "original_arguments (new_events w (snd (send inst P orig active rcd w))) = [SendArgs rcd]"
  by (simp add: send_new_events original_arguments_append
        setup_no_arguments [OF setup_producerEventsFrom] original_arguments_finalizerEvents)

lemma sendBatch_calls:
  "original_calls (new_events w (snd (sendBatch inst P orig active b w))) =
     [(SendBatchArgs (readBatch
         (batchStoreFrom P active (next_span w) (topicGroups b) (store w)) b), active)]"
  by (simp add: sendBatch_new_events original_calls_append
        setup_no_calls [OF setup_batchEventsFrom] original_calls_finalizerEvents)



lemma send_starts:
  "span_starts (new_events w (snd (send inst P orig active rcd w))) =
     span_starts (producerEventsFrom inst P (pr_topic rcd) active (next_span w)
                    (pr_messages rcd) (store w))"
  by (simp add: send_new_events span_starts_append span_starts_finalizerEvents)

text \<open>The hook calls and the logged errors among the calls of a span creation.\<close>

lemma diag_errors_attributes:
  "diag_errors (map (\<lambda>kv. AttributeSet s (fst kv) (snd kv)) xs) = []"
  by (induction xs) simp_all

lemma hook_calls_attributes:
  "hook_calls (map (\<lambda>kv. AttributeSet s (fst kv) (snd kv)) xs) = []"
  by (induction xs) simp_all

lemma diag_errors_moduleVersionEvents: "diag_errors (moduleVersionEvents inst s) = []"
  by (simp add: moduleVersionEvents_def split: option.splits)

lemma hook_calls_moduleVersionEvents: "hook_calls (moduleVersionEvents inst s) = []"
  by (simp add: moduleVersionEvents_def split: option.splits)

lemma diag_errors_hookEvents:
  "diag_errors (hookEvents hk text h s topic m) =
     (case hook_throws (h s topic m) of
        None \<Rightarrow> []
      | Some e \<Rightarrow> if truthy e then [(text, e)] else [])"
  by (simp add: hookEvents_def diag_errors_append diag_errors_attributes split: option.splits)

lemma hook_calls_hookEvents: "hook_calls (hookEvents hk text h s topic m) = [(hk, s, topic, m)]"
  by (simp add: hookEvents_def hook_calls_append hook_calls_attributes split: option.splits)

text \<open>Sorting and splitting a list of keys keeps every key as often as it occurs.\<close>

lemma count_list_insort_key: "count_list (insort_key f x xs) k = count_list (x # xs) k"
  by (induction xs) auto

lemma count_list_sort_key: "count_list (sort_key f xs) k = count_list xs k"
  by (induction xs) (simp_all add: count_list_insort_key)

lemma count_list_filter_split:
  "count_list (filter P xs) k + count_list (filter (\<lambda>x. \<not> P x) xs) k = count_list xs k"
  by (induction xs) auto

text \<open>The definitions that evaluate a run on a sample input.\<close>

lemma objectPrototype_traceparent: "map_of objectPrototype ''traceparent'' = None"
  by (simp add: objectPrototype_def)

lemmas sample_defs =
  emptyWorld_def emptyStore_def bareCell_def plainInstrumentation_def headerPropagator_def
  bareMessage_def tracedHeaders_def tracedMessage_def barePayload_def tracedPayload_def
  eventsPayload_def ordersRecord_def repeatedRecord_def pairRecord_def ordersBatch_def pairBatch_def
  emptyBatch_def throwsBoom_def fulfils_def rejectsWithNull_def nullThrowingHook_def
  hookedInstrumentation_def within_def replacement_def objectPrototype_traceparent

lemmas run_defs =
  intercepted_def send_def sendBatch_def eachMessage_def eachBatch_def returned_def
  applyOriginal_def endSpansOnPromise_def endAll_def setStatusAll_def errorMessageOf_def
  startProducerSpan_def startConsumerSpan_def safeExecuteInTheMiddle_def callHook_def
  logHookError_def addModuleVersion_def startSpan_def emit_def ensureHeaders_def
  injectAt_def propagation_inject_def writeProperty_def propagation_extract_def
  getter_get_def getter_keys_def readProperty_def readMessage_def readRecord_def
  readGroup_def readBatch_def topicGroups_def batchMessages_def emptyObject_def setSpan_def getSpan_def ROOT_CONTEXT_def
  producerAttributes_def consumerAttributes_def new_events_def ends_of_def Let_def

section \<open>The claims\<close>

subsection \<open>C1: every span is ended exactly once\<close>

text \<open>
  C1, as the code has it. An intercepted operation (single send, sendBatch, eachMessage,
  eachBatch) calls the original function exactly once. When the original returns a
  promise that settles, by fulfilment or by rejection, every span the operation started
  is ended exactly once; while the promise is pending no span is ended. When the
  original throws synchronously the throw leaves the wrapper unchanged and the spans
  already started are not ended: no wrapper has a handler around the original call.
\<close>

theorem spans_ended_once_on_settlement:
  assumes run: "intercepted inst P orig active args w = (r, w')"
  shows "\<exists>a c. original_calls (new_events w w') = [(a, c)] \<and>
           (\<forall>e. orig a c = Throws e \<longrightarrow> r = Throws e) \<and>
           (\<forall>p. orig a c = Returns p \<longrightarrow>
                (\<exists>p'. r = Returns p' \<and> (p' = Pending \<longleftrightarrow> p = Pending))) \<and>
           (\<forall>s \<in> set (span_starts (new_events w w')).
              ends_of (sp_id s) (new_events w w') = (if settled (orig a c) then 1 else 0))"
proof (cases args)
  case (SendArgs rcd)
  let ?n = "next_span w"
  let ?ms = "pr_messages rcd"
  let ?st = "producerStoreFrom P active ?n ?ms (store w)"
  let ?a = "SendArgs (readRecord ?st rcd)"
  let ?pre = "producerEventsFrom inst P (pr_topic rcd) active ?n ?ms (store w)"
  from run SendArgs have r: "r = finalResult (orig ?a active)"
    and w': "w' = \<lparr>next_span = ?n + length ?ms,
                   trace = trace w @ (?pre @ OriginalCalled args ?a active #
                     finalizerEvents [?n ..< ?n + length ?ms] (orig ?a active)),
                   store = ?st\<rparr>"
    by (simp_all add: intercepted_def send_eq Let_def)
  show ?thesis
  proof (rule operation_result [where orig = orig and a = "?a" and c = active, OF r])
    show "new_events w w' =
            ?pre @ OriginalCalled args ?a active #
            finalizerEvents [?n ..< ?n + length ?ms] (orig ?a active)"
      unfolding w' by (rule new_events_eq)
    show "map sp_id (span_starts ?pre) = [?n ..< ?n + length ?ms]"
      by (simp only: span_starts_producerEventsFrom) (rule ids_enumerate, simp)
    show "distinct [?n ..< ?n + length ?ms]" by simp
    show "list_all setup_event ?pre"
      by (rule setup_producerEventsFrom)
  qed
next
  case (SendBatchArgs b)
  let ?n = "next_span w"
  let ?tms = "topicGroups b"
  let ?st = "batchStoreFrom P active ?n ?tms (store w)"
  let ?a = "SendBatchArgs (readBatch ?st b)"
  let ?pre = "batchEventsFrom inst P active ?n ?tms (store w)"
  from run SendBatchArgs have r: "r = finalResult (orig ?a active)"
    and w': "w' = \<lparr>next_span = ?n + batchSize ?tms,
                   trace = trace w @ (?pre @ OriginalCalled args ?a active #
                     finalizerEvents [?n ..< ?n + batchSize ?tms] (orig ?a active)),
                   store = ?st\<rparr>"
    by (simp_all add: intercepted_def sendBatch_eq Let_def)
  have len: "length (flattened ?tms) = batchSize ?tms"
    by (simp add: flattened_def batchSize_def length_concat o_def)
  show ?thesis
  proof (rule operation_result [where orig = orig and a = "?a" and c = active, OF r])
    show "new_events w w' =
            ?pre @ OriginalCalled args ?a active #
            finalizerEvents [?n ..< ?n + batchSize ?tms] (orig ?a active)"
      unfolding w' by (rule new_events_eq)
    show "map sp_id (span_starts ?pre) = [?n ..< ?n + batchSize ?tms]"
      unfolding len [symmetric]
      by (simp only: span_starts_batchEventsFrom) (rule ids_enumerate, simp add: split_def)
    show "distinct [?n ..< ?n + batchSize ?tms]" by simp
    show "list_all setup_event ?pre"
      by (rule setup_batchEventsFrom)
  qed
next
  case (EachMessageArgs payload)
  let ?n = "next_span w"
  let ?pc = "propagation_extract P ROOT_CONTEXT (mv_headers (emp_message payload))"
  let ?c = "setSpan ?pc (LocalSpan ?n)"
  let ?pre = "consumerSpanEvents inst (emp_topic payload) (Some (emp_message payload))
                ''process'' (getSpan ?pc) None ?n"
  let ?a = "EachMessageArgs payload :: message_value call_args"
  from run EachMessageArgs have r: "r = finalResult (orig ?a ?c)"
    and w': "w' = \<lparr>next_span = Suc ?n,
                   trace = trace w @ (?pre @ OriginalCalled args ?a ?c #
                     finalizerEvents [?n] (orig ?a ?c)),
                   store = store w\<rparr>"
    by (simp_all add: intercepted_def eachMessage_eq Let_def)
  show ?thesis
  proof (rule operation_result [where orig = orig and a = "?a" and c = "?c", OF r])
    show "new_events w w' = ?pre @ OriginalCalled args ?a ?c # finalizerEvents [?n] (orig ?a ?c)"
      unfolding w' by (rule new_events_eq)
    show "map sp_id (span_starts ?pre) = [?n]"
      by (simp add: span_starts_consumerSpanEvents)
    show "distinct [?n]" by simp
    show "list_all setup_event ?pre" by (rule setup_consumerSpanEvents)
  qed
next
  case (EachBatchArgs payload)
  let ?n = "next_span w"
  let ?topic = "batch_topic (ebp_batch payload)"
  let ?ms = "batch_messages (ebp_batch payload)"
  let ?c = "setSpan active (LocalSpan ?n)"
  let ?pre = "consumerSpanEvents inst ?topic None ''receive'' (getSpan ROOT_CONTEXT) None ?n @
              processEventsFrom inst ?topic P ?c (Suc ?n) ?ms"
  let ?spans = "?n # [Suc ?n ..< Suc ?n + length ?ms]"
  let ?a = "EachBatchArgs payload :: message_value call_args"
  from run EachBatchArgs have r: "r = finalResult (orig ?a ?c)"
    and w': "w' = \<lparr>next_span = Suc ?n + length ?ms,
                   trace = trace w @ (?pre @ OriginalCalled args ?a ?c #
                     finalizerEvents ?spans (orig ?a ?c)),
                   store = store w\<rparr>"
    by (simp_all add: intercepted_def eachBatch_eq Let_def)
  show ?thesis
  proof (rule operation_result [where orig = orig and a = "?a" and c = "?c", OF r])
    show "new_events w w' = ?pre @ OriginalCalled args ?a ?c # finalizerEvents ?spans (orig ?a ?c)"
      unfolding w' by (rule new_events_eq)
    have "map sp_id (span_starts (processEventsFrom inst ?topic P ?c (Suc ?n) ?ms)) =
            [Suc ?n ..< Suc ?n + length ?ms]"
      by (simp only: span_starts_processEventsFrom) (rule ids_enumerate, simp)
    then show "map sp_id (span_starts ?pre) = ?spans"
      by (simp add: span_starts_append span_starts_consumerSpanEvents del: upt_Suc)
    show "distinct ?spans" by (simp del: upt_Suc)
    show "list_all setup_event ?pre"
      by (simp add: setup_consumerSpanEvents setup_processEventsFrom)
  qed
qed

text \<open>
  A send of one message whose original call fulfils: span 0 is started and ended once.
\<close>

theorem spans_ended_once_witness:
  "fst (intercepted plainInstrumentation headerPropagator fulfils ROOT_CONTEXT
          (SendArgs ordersRecord) emptyWorld) = Returns (Fulfilled JUndefined) \<and>
   map sp_id (span_starts (new_events emptyWorld
     (snd (intercepted plainInstrumentation headerPropagator fulfils ROOT_CONTEXT
             (SendArgs ordersRecord) emptyWorld)))) = [0] \<and>
   ends_of 0 (new_events emptyWorld
     (snd (intercepted plainInstrumentation headerPropagator fulfils ROOT_CONTEXT
             (SendArgs ordersRecord) emptyWorld))) = 1"
proof -
  let ?run = "intercepted plainInstrumentation headerPropagator fulfils ROOT_CONTEXT
                (SendArgs ordersRecord) emptyWorld"
  have run: "?run = (fst ?run, snd ?run)" by simp
  have res: "fst ?run = Returns (Fulfilled JUndefined)"
    by (simp add: run_defs sample_defs)
  have ids: "map sp_id (span_starts (new_events emptyWorld (snd ?run))) = [0]"
    by (simp add: run_defs sample_defs)
  from spans_ended_once_on_settlement [OF run] obtain a c where
    "\<forall>s \<in> set (span_starts (new_events emptyWorld (snd ?run))).
       ends_of (sp_id s) (new_events emptyWorld (snd ?run)) =
         (if settled (fulfils a c) then 1 else 0)"
    by blast
  moreover have "settled (fulfils a c)" by (simp add: settled_def fulfils_def)
  moreover from ids obtain s where
    "s \<in> set (span_starts (new_events emptyWorld (snd ?run)))" and "sp_id s = 0"
    by (cases "span_starts (new_events emptyWorld (snd ?run))") auto
  ultimately have "ends_of 0 (new_events emptyWorld (snd ?run)) = 1" by auto
  with res ids show ?thesis by simp
qed

text \<open>
  C1 as stated asks that already-created spans are still ended when the original call
  throws synchronously. A send of one message whose original throws starts span 0,
  passes the throw on and never ends the span.
\<close>

theorem synchronous_throw_leaves_span_open:
  "fst (intercepted plainInstrumentation headerPropagator throwsBoom ROOT_CONTEXT
          (SendArgs ordersRecord) emptyWorld) = Throws (JStr ''boom'') \<and>
   map sp_id (span_starts (trace
     (snd (intercepted plainInstrumentation headerPropagator throwsBoom ROOT_CONTEXT
             (SendArgs ordersRecord) emptyWorld)))) = [0] \<and>
   ends_of 0 (trace
     (snd (intercepted plainInstrumentation headerPropagator throwsBoom ROOT_CONTEXT
             (SendArgs ordersRecord) emptyWorld))) = 0"
  by (simp add: run_defs sample_defs)

subsection \<open>C2: the finalizer passes the outcome on\<close>

text \<open>
  C2 at the input where the code departs from it. A promise rejected with
  \<^verbatim>\<open>null\<close> reaches the catch handler, where \<^verbatim>\<open>typeof reason === 'object'\<close>
  holds and \<^verbatim>\<open>hasOwnProperty.call(null, 'message')\<close> throws a TypeError before
  \<^verbatim>\<open>throw reason\<close> is reached: the returned promise rejects with that TypeError and
  not with the original reason. (For every other reason, and for every fulfilment
  value, \<open>rejection_unchanged\<close> and \<open>fulfilment_unchanged\<close> show the outcome passed
  on as it is.)
\<close>

theorem null_rejection_is_replaced:
  "fst (endSpansOnPromise spans (Rejected JNull) w) = Rejected nullTypeError \<and>
   nullTypeError \<noteq> JNull"
  by (simp add: endSpansOnPromise_def errorMessageOf_null nullTypeError_def)

subsection \<open>C3: error status before the spans end\<close>

text \<open>
  C3 at the input where the code departs from it. On a rejection with \<^verbatim>\<open>null\<close>
  the catch handler throws before its \<^verbatim>\<open>forEach\<close>: the spans are ended by the
  \<^verbatim>\<open>finally\<close> callback and no span is given an error status. (For every other
  reason \<open>rejection_unchanged\<close> shows each span set to the error status with the
  message of \<open>bestEffortMessage\<close>, and all statuses set before the first span ends.)
\<close>

theorem null_rejection_sets_no_status:
  "new_events w (snd (endSpansOnPromise spans (Rejected JNull) w)) = map SpanEnded spans \<and>
   statuses_of s (new_events w (snd (endSpansOnPromise spans (Rejected JNull) w))) = []"
proof -
  have a: "statuses_of s (map SpanEnded xs) = []" for xs
    by (induction xs) simp_all
  show ?thesis
    by (simp add: endSpansOnPromise_eq finalizerEvents_def errorMessageOf_null a)
qed

subsection \<open>C4: the spans of a batch consume\<close>

text \<open>
  C4, as the code has it. An eachBatch call with N messages starts exactly one receive
  span, under the empty context and without links, and then N process spans in message
  order. Each process span carries a link to the remote span decoded from its own
  message's headers when there is one, and no link otherwise. The process spans are
  started with no explicit context inside \<^verbatim>\<open>context.with\<close>, where the receive span
  is the active span: each of them is a child of the receive span, and the remote
  context is a link and not the parent. The original handler is called once, with the
  original payload, under that same context.
\<close>

theorem eachBatch_span_graph:
  "span_starts (new_events w (snd (eachBatch inst P orig active payload w))) =
     \<lparr>sp_id = next_span w, sp_name = batch_topic (ebp_batch payload), sp_kind = CONSUMER,
      sp_attributes = consumerAttributes (batch_topic (ebp_batch payload)) ''receive'',
      sp_links = [], sp_parent = None\<rparr> #
     map (\<lambda>(i, m).
            \<lparr>sp_id = i, sp_name = batch_topic (ebp_batch payload), sp_kind = CONSUMER,
             sp_attributes = consumerAttributes (batch_topic (ebp_batch payload)) ''process'',
             sp_links =
               (case getSpan (propagation_extract P ROOT_CONTEXT (mv_headers m)) of
                  None \<Rightarrow> [] | Some l \<Rightarrow> [l]),
             sp_parent = Some (LocalSpan (next_span w))\<rparr>)
       (enumerate (Suc (next_span w)) (batch_messages (ebp_batch payload))) \<and>
   length (span_starts (new_events w (snd (eachBatch inst P orig active payload w)))) =
     Suc (length (batch_messages (ebp_batch payload))) \<and>
   original_calls (new_events w (snd (eachBatch inst P orig active payload w))) =
     [(EachBatchArgs payload, setSpan active (LocalSpan (next_span w)))]"
proof -
  let ?n = "next_span w"
  let ?topic = "batch_topic (ebp_batch payload)"
  let ?ms = "batch_messages (ebp_batch payload)"
  let ?c = "setSpan active (LocalSpan ?n)"
  let ?pre = "consumerSpanEvents inst ?topic None ''receive'' (getSpan ROOT_CONTEXT) None ?n @
              processEventsFrom inst ?topic P ?c (Suc ?n) ?ms"
  let ?a = "EachBatchArgs payload :: message_value call_args"
  let ?args = "EachBatchArgs payload :: addr call_args"
  let ?fin = "finalizerEvents (?n # [Suc ?n ..< Suc ?n + length ?ms]) (orig ?a ?c)"
  have new: "new_events w (snd (eachBatch inst P orig active payload w)) =
               ?pre @ OriginalCalled ?args ?a ?c # ?fin"
    by (simp add: eachBatch_eq Let_def del: upt_Suc)
  have starts: "span_starts (?pre @ OriginalCalled ?args ?a ?c # ?fin) = span_starts ?pre"
    by (simp add: span_starts_append span_starts_finalizerEvents)
  have calls: "original_calls (?pre @ OriginalCalled ?args ?a ?c # ?fin) = [(?a, ?c)]"
    by (simp add: original_calls_append setup_no_calls [OF setup_consumerSpanEvents]
          setup_no_calls [OF setup_processEventsFrom] original_calls_finalizerEvents)
  have graph: "span_starts ?pre =
     \<lparr>sp_id = ?n, sp_name = ?topic, sp_kind = CONSUMER,
      sp_attributes = consumerAttributes ?topic ''receive'',
      sp_links = [], sp_parent = None\<rparr> #
     map (\<lambda>(i, m).
            \<lparr>sp_id = i, sp_name = ?topic, sp_kind = CONSUMER,
             sp_attributes = consumerAttributes ?topic ''process'',
             sp_links =
               (case getSpan (propagation_extract P ROOT_CONTEXT (mv_headers m)) of
                  None \<Rightarrow> [] | Some l \<Rightarrow> [l]),
             sp_parent = Some (LocalSpan ?n)\<rparr>)
       (enumerate (Suc ?n) ?ms)"
    by (simp add: span_starts_append span_starts_consumerSpanEvents
          span_starts_processEventsFrom getSpan_def setSpan_def ROOT_CONTEXT_def)
  show ?thesis
    unfolding new starts calls by (simp add: graph)
qed

text \<open>
  C4 as stated says the process spans are not children of the receive span. A batch of
  one message with a \<^verbatim>\<open>traceparent\<close> header: span 0 is the receive span, span 1 the
  process span; span 1 has span 0 as its parent and the remote span as its link.
\<close>

theorem process_span_is_child_of_receive_span:
  "map sp_id (span_starts (trace (snd (eachBatch plainInstrumentation headerPropagator
      fulfils ROOT_CONTEXT eventsPayload emptyWorld)))) = [0, 1] \<and>
   map sp_parent (span_starts (trace (snd (eachBatch plainInstrumentation headerPropagator
      fulfils ROOT_CONTEXT eventsPayload emptyWorld)))) = [None, Some (LocalSpan 0)] \<and>
   map sp_links (span_starts (trace (snd (eachBatch plainInstrumentation headerPropagator
      fulfils ROOT_CONTEXT eventsPayload emptyWorld)))) = [[], [RemoteSpan ''abc'']]"
  by (simp add: run_defs sample_defs)

subsection \<open>C5: the spans of a sendBatch and the call of the original\<close>




subsection \<open>C6: headers created and context injected, message by message\<close>

text \<open>
  C6, as the code has it. Producer-span creation returns the span and writes to the
  message object it was given: the message keeps the header object it has, or is given
  a new empty one when it has none, and the context made of the active context and the
  new span is injected into that object, every field the object can take as a string
  over the entries already there; key and value, the other messages and the other
  header objects are untouched. A send and a sendBatch do this for their messages in
  order, each on what the previous left, and call the original with the messages as
  they read after the last. The messages are written to independently when they share
  nothing: if they are distinct objects and no two of them hold the same header object,
  every message reaches the original with the entries it had overridden by the entries
  of its own span.
\<close>

theorem producer_headers_injected:
  "(\<exists>w'. startProducerSpan inst P topic r active w = Inr (next_span w, w') \<and>
          store w' = producerStore P active (next_span w) r (store w) \<and>
          msg_headers (message_at (store w') r) =
            Some (case msg_headers (message_at (store w) r) of
                    None \<Rightarrow> next_object (store w) | Some a \<Rightarrow> a) \<and>
          msg_key (message_at (store w') r) = msg_key (message_at (store w) r) \<and>
          msg_value (message_at (store w') r) = msg_value (message_at (store w) r) \<and>
          map_of (own (headerObject (store w') r)) =
            map_of (own (case msg_headers (message_at (store w) r) of
                           None \<Rightarrow> emptyObject | Some a \<Rightarrow> object_at (store w) a)) ++
            map_of (rev (injectedEntries P active (next_span w) (headerObject (store w) r))) \<and>
          inherited (headerObject (store w') r) = inherited (headerObject (store w) r) \<and>
          (\<forall>r'. r' \<noteq> r \<longrightarrow> message_at (store w') r' = message_at (store w) r') \<and>
          (\<forall>a. a \<noteq> headerAddress (store w) r \<longrightarrow>
                object_at (store w') a = object_at (store w) a)) \<and>
   store (snd (send inst P orig active rcd w)) =
     fold (\<lambda>(i, r). producerStore P active i r)
       (enumerate (next_span w) (pr_messages rcd)) (store w) \<and>
   original_calls (new_events w (snd (send inst P orig active rcd w))) =
     [(SendArgs (readRecord (store (snd (send inst P orig active rcd w))) rcd), active)] \<and>
   list_all (\<lambda>m. mv_headers m \<noteq> None)
     (pr_messages (readRecord (store (snd (send inst P orig active rcd w))) rcd)) \<and>
   (unshared (store w) (pr_messages rcd) \<longrightarrow>
      list_all2 (injectedWith P active (store w))
        (pr_messages (readRecord (store (snd (send inst P orig active rcd w))) rcd))
        (enumerate (next_span w) (pr_messages rcd))) \<and>
   store (snd (sendBatch inst P orig active b w)) =
     fold (\<lambda>(i, r). producerStore P active i r)
       (enumerate (next_span w) (batchMessages (topicGroups b))) (store w) \<and>
   original_calls (new_events w (snd (sendBatch inst P orig active b w))) =
     [(SendBatchArgs (readBatch (store (snd (sendBatch inst P orig active b w))) b),
       active)] \<and>
   list_all (\<lambda>m. mv_headers m \<noteq> None)
     (batchMessages (topicGroups
        (readBatch (store (snd (sendBatch inst P orig active b w))) b))) \<and>
   (unshared (store w) (batchMessages (topicGroups b)) \<longrightarrow>
      list_all2 (injectedWith P active (store w))
        (batchMessages (topicGroups
           (readBatch (store (snd (sendBatch inst P orig active b w))) b)))
        (enumerate (next_span w) (batchMessages (topicGroups b))))"
proof -
  let ?n = "next_span w"
  let ?st = "store w"
  let ?st1 = "producerStore P active ?n r ?st"
  have address: "headerAddress ?st r =
                   (case msg_headers (message_at ?st r) of
                      None \<Rightarrow> next_object ?st | Some a \<Rightarrow> a)"
    by (simp add: headerAddress_def)
  have object: "headerObject ?st r =
                  (case msg_headers (message_at ?st r) of
                     None \<Rightarrow> emptyObject | Some a \<Rightarrow> object_at ?st a)"
    by (simp add: headerObject_def)
  have after: "headerObject ?st1 r =
                 propagation_inject P (setSpan active (LocalSpan ?n)) (headerObject ?st r)"
    by (simp add: headerObject_def [of ?st1] producerStore_cell producerStore_object)
  have one: "\<exists>w'. startProducerSpan inst P topic r active w = Inr (?n, w') \<and>
          store w' = ?st1 \<and>
          msg_headers (message_at (store w') r) =
            Some (case msg_headers (message_at ?st r) of
                    None \<Rightarrow> next_object ?st | Some a \<Rightarrow> a) \<and>
          msg_key (message_at (store w') r) = msg_key (message_at ?st r) \<and>
          msg_value (message_at (store w') r) = msg_value (message_at ?st r) \<and>
          map_of (own (headerObject (store w') r)) =
            map_of (own (case msg_headers (message_at ?st r) of
                           None \<Rightarrow> emptyObject | Some a \<Rightarrow> object_at ?st a)) ++
            map_of (rev (injectedEntries P active ?n (headerObject ?st r))) \<and>
          inherited (headerObject (store w') r) = inherited (headerObject ?st r) \<and>
          (\<forall>r'. r' \<noteq> r \<longrightarrow> message_at (store w') r' = message_at ?st r') \<and>
          (\<forall>a. a \<noteq> headerAddress ?st r \<longrightarrow> object_at (store w') a = object_at ?st a)"
    unfolding startProducerSpan_eq
    by (simp add: producerStore_cell producerStore_object after propagation_inject_entries
          address [symmetric] object [symmetric])
  let ?rs = "pr_messages rcd"
  let ?sent = "store (snd (send inst P orig active rcd w))"
  have sent: "?sent = producerStoreFrom P active ?n ?rs ?st"
    by (rule send_store)
  have s1: "?sent = fold (\<lambda>(i, r). producerStore P active i r) (enumerate ?n ?rs) ?st"
    unfolding sent by (rule producerStoreFrom_fold)
  have s2: "original_calls (new_events w (snd (send inst P orig active rcd w))) =
              [(SendArgs (readRecord ?sent rcd), active)]"
    unfolding sent by (rule send_calls)
  have msgs: "pr_messages (readRecord ?sent rcd) =
                map (readMessage (producerStoreFrom P active ?n ?rs ?st)) ?rs"
    unfolding sent by (simp add: readRecord_def)
  have s3: "list_all (\<lambda>m. mv_headers m \<noteq> None) (pr_messages (readRecord ?sent rcd))"
    unfolding msgs by (rule read_headers)
  have s4: "unshared ?st ?rs \<longrightarrow>
              list_all2 (injectedWith P active ?st) (pr_messages (readRecord ?sent rcd))
                (enumerate ?n ?rs)"
    unfolding msgs by (simp add: read_unshared)
  let ?bs = "batchMessages (topicGroups b)"
  let ?batched = "store (snd (sendBatch inst P orig active b w))"
  have batched: "?batched = producerStoreFrom P active ?n ?bs ?st"
    by (simp add: sendBatch_store batchStoreFrom_flat)
  have b1: "?batched = fold (\<lambda>(i, r). producerStore P active i r) (enumerate ?n ?bs) ?st"
    unfolding batched by (rule producerStoreFrom_fold)
  have b2: "original_calls (new_events w (snd (sendBatch inst P orig active b w))) =
              [(SendBatchArgs (readBatch ?batched b), active)]"
    unfolding batched by (simp add: sendBatch_calls batchStoreFrom_flat)
  have bmsgs: "batchMessages (topicGroups (readBatch ?batched b)) =
                 map (readMessage (producerStoreFrom P active ?n ?bs ?st)) ?bs"
    unfolding batched by (rule batchMessages_readBatch)
  have b3: "list_all (\<lambda>m. mv_headers m \<noteq> None)
              (batchMessages (topicGroups (readBatch ?batched b)))"
    unfolding bmsgs by (rule read_headers)
  have b4: "unshared ?st ?bs \<longrightarrow>
              list_all2 (injectedWith P active ?st)
                (batchMessages (topicGroups (readBatch ?batched b))) (enumerate ?n ?bs)"
    unfolding bmsgs by (simp add: read_unshared)
  show ?thesis
    by (intro conjI one s1 s2 s3 s4 b1 b2 b3 b4)
qed

text \<open>
  A send of two distinct messages without headers: each is given a header object of its
  own, and reaches the original with the entry of its own span. The message at address
  1 and the header objects other than the new one are as they were after the first
  span creation.
\<close>

theorem producer_headers_witness:
  "unshared (store emptyWorld) (pr_messages pairRecord) \<and>
   list_all2 (injectedWith headerPropagator ROOT_CONTEXT (store emptyWorld))
     (pr_messages (readRecord
        (store (snd (send plainInstrumentation headerPropagator fulfils ROOT_CONTEXT pairRecord
                       emptyWorld))) pairRecord))
     [(0, 0), (1, 1)] \<and>
   map mv_headers (pr_messages (readRecord
     (store (snd (send plainInstrumentation headerPropagator fulfils ROOT_CONTEXT pairRecord
                    emptyWorld))) pairRecord)) =
     [Some \<lparr>own = [(''traceparent'', HString ''1'')], inherited = objectPrototype\<rparr>,
      Some \<lparr>own = [(''traceparent'', HString ''11'')], inherited = objectPrototype\<rparr>] \<and>
   (1 :: addr) \<noteq> 0 \<and> (1 :: addr) \<noteq> headerAddress (store emptyWorld) 0 \<and>
   message_at (producerStore headerPropagator ROOT_CONTEXT 0 0 (store emptyWorld)) 1 =
     bareCell \<and>
   object_at (producerStore headerPropagator ROOT_CONTEXT 0 0 (store emptyWorld)) 1 =
     emptyObject \<and>
   readMessage (producerStore headerPropagator ROOT_CONTEXT 0 0 (store emptyWorld)) 0 =
     \<lparr>mv_key = None, mv_value = Some ''v'',
      mv_headers = Some \<lparr>own = [(''traceparent'', HString ''1'')],
                         inherited = objectPrototype\<rparr>\<rparr>"
proof -
  let ?run = "send plainInstrumentation headerPropagator fulfils ROOT_CONTEXT pairRecord
                emptyWorld"
  note facts =
    producer_headers_injected
      [where inst = plainInstrumentation and P = headerPropagator and orig = fulfils
         and active = ROOT_CONTEXT and w = emptyWorld and rcd = pairRecord and r = 0
         and topic = "''orders''" and b = ordersBatch]
  have distinct: "unshared (store emptyWorld) (pr_messages pairRecord)"
    by (simp add: unshared_def emptyWorld_def emptyStore_def bareCell_def pairRecord_def
          List.map_filter_def)
  have numbered: "enumerate (next_span emptyWorld) (pr_messages pairRecord) = [(0, 0), (1, 1)]"
    by (simp add: emptyWorld_def pairRecord_def)
  from facts have "unshared (store emptyWorld) (pr_messages pairRecord) \<longrightarrow>
      list_all2 (injectedWith headerPropagator ROOT_CONTEXT (store emptyWorld))
        (pr_messages (readRecord (store (snd ?run)) pairRecord))
        (enumerate (next_span emptyWorld) (pr_messages pairRecord))"
    by blast
  with distinct have each:
    "list_all2 (injectedWith headerPropagator ROOT_CONTEXT (store emptyWorld))
       (pr_messages (readRecord (store (snd ?run)) pairRecord)) [(0, 0), (1, 1)]"
    unfolding numbered by simp
  have read: "map mv_headers (pr_messages (readRecord (store (snd ?run)) pairRecord)) =
     [Some \<lparr>own = [(''traceparent'', HString ''1'')], inherited = objectPrototype\<rparr>,
      Some \<lparr>own = [(''traceparent'', HString ''11'')], inherited = objectPrototype\<rparr>]"
    by (simp add: run_defs sample_defs)
  have other: "(1 :: addr) \<noteq> 0" by simp
  have address: "headerAddress (store emptyWorld) 0 = 0"
    by (simp add: headerAddress_def emptyWorld_def emptyStore_def bareCell_def)
  have fresh: "(1 :: addr) \<noteq> headerAddress (store emptyWorld) 0"
    by (simp add: address)
  from facts [THEN conjunct1] obtain w' :: world where
    st: "store w' = producerStore headerPropagator ROOT_CONTEXT (next_span emptyWorld) 0
                      (store emptyWorld)"
    and cells: "\<forall>r'. r' \<noteq> 0 \<longrightarrow> message_at (store w') r' = message_at (store emptyWorld) r'"
    and objects: "\<forall>a. a \<noteq> headerAddress (store emptyWorld) 0 \<longrightarrow>
                       object_at (store w') a = object_at (store emptyWorld) a"
    by blast
  have zero: "next_span emptyWorld = 0" by (simp add: emptyWorld_def)
  from cells other have "message_at (store w') 1 = message_at (store emptyWorld) 1" by blast
  then have cell: "message_at (producerStore headerPropagator ROOT_CONTEXT 0 0
                     (store emptyWorld)) 1 = bareCell"
    unfolding st zero by (simp add: emptyWorld_def emptyStore_def)
  from objects fresh have "object_at (store w') 1 = object_at (store emptyWorld) 1" by blast
  then have obj: "object_at (producerStore headerPropagator ROOT_CONTEXT 0 0
                    (store emptyWorld)) 1 = emptyObject"
    unfolding st zero by (simp add: emptyWorld_def emptyStore_def)
  have first: "readMessage (producerStore headerPropagator ROOT_CONTEXT 0 0
                 (store emptyWorld)) 0 =
     \<lparr>mv_key = None, mv_value = Some ''v'',
      mv_headers = Some \<lparr>own = [(''traceparent'', HString ''1'')],
                         inherited = objectPrototype\<rparr>\<rparr>"
    by (simp add: producerStore_def run_defs sample_defs)
  show ?thesis
    by (intro conjI distinct each read other fresh cell obj first)
qed

text \<open>
  C6 as stated says the injection happens independently per message. A send that lists
  the same message object twice starts span 0 and span 1 and injects both contexts into
  the one header object: the entry of span 0, \<^verbatim>\<open>traceparent = 1\<close>, is overwritten
  by that of span 1, and the original receives the entry of span 1 at both positions.
\<close>

theorem shared_message_carries_last_span:
  "pr_messages repeatedRecord = [0, 0] \<and>
   map sp_id (span_starts (trace (snd (send plainInstrumentation headerPropagator fulfils
      ROOT_CONTEXT repeatedRecord emptyWorld)))) = [0, 1] \<and>
   prop_fields headerPropagator (setSpan ROOT_CONTEXT (LocalSpan 0)) =
     [(''traceparent'', ''1'')] \<and>
   prop_fields headerPropagator (setSpan ROOT_CONTEXT (LocalSpan 1)) =
     [(''traceparent'', ''11'')] \<and>
   original_calls (trace (snd (send plainInstrumentation headerPropagator fulfils
      ROOT_CONTEXT repeatedRecord emptyWorld))) =
     [(SendArgs
         \<lparr>pr_topic = ''orders'',
          pr_messages =
            [\<lparr>mv_key = None, mv_value = Some ''v'',
              mv_headers = Some \<lparr>own = [(''traceparent'', HString ''11'')],
                                 inherited = objectPrototype\<rparr>\<rparr>,
             \<lparr>mv_key = None, mv_value = Some ''v'',
              mv_headers = Some \<lparr>own = [(''traceparent'', HString ''11'')],
                                 inherited = objectPrototype\<rparr>\<rparr>],
          pr_acks = None\<rparr>, ROOT_CONTEXT)]"
  by (simp add: run_defs sample_defs)

subsection \<open>C7: the parent context of a single consumed message\<close>

text \<open>
  C7. An eachMessage call extracts a context from the headers of its message: the
  propagator's decoder runs from the empty context, reading the header object through
  the carrier adapter (for a key, the text of the property of that name, with a Buffer
  decoded; the own keys of the object), or reading nothing when the message has no
  header object. The call starts one process span, without links, whose parent is the
  span of the extracted context, and calls the original handler once under the extracted
  context with the new span set. When the extraction gives the empty context back the
  span has no parent; with absent headers this is the case for every propagator that
  decodes nothing from nothing. The wrapper throws exactly when the original handler
  throws.
\<close>

theorem eachMessage_parent_context:
  assumes extracted:
    "pc = prop_decode P \<lparr>ctx_span = None, ctx_baggage = []\<rparr>
            (\<lambda>key. case mv_headers (emp_message payload) of
                      None \<Rightarrow> None
                    | Some c \<Rightarrow>
                        (case readProperty c key of
                           HString s \<Rightarrow> Some s
                         | HBuffer bs \<Rightarrow> Some (utf8Decode bs)
                         | HUndefined \<Rightarrow> None
                         | HNull \<Rightarrow> None
                         | HOther s \<Rightarrow> Some s))
            (case mv_headers (emp_message payload) of None \<Rightarrow> [] | Some c \<Rightarrow> ownKeys c)"
  shows "span_starts (new_events w (snd (eachMessage inst P orig active payload w))) =
           [\<lparr>sp_id = next_span w, sp_name = emp_topic payload, sp_kind = CONSUMER,
             sp_attributes = consumerAttributes (emp_topic payload) ''process'',
             sp_links = [], sp_parent = ctx_span pc\<rparr>] \<and>
         original_calls (new_events w (snd (eachMessage inst P orig active payload w))) =
           [(EachMessageArgs payload, pc\<lparr>ctx_span := Some (LocalSpan (next_span w))\<rparr>)] \<and>
         (pc = \<lparr>ctx_span = None, ctx_baggage = []\<rparr> \<longrightarrow>
            map sp_parent
              (span_starts (new_events w
                 (snd (eachMessage inst P orig active payload w)))) = [None]) \<and>
         (mv_headers (emp_message payload) = None \<longrightarrow>
            pc = prop_decode P \<lparr>ctx_span = None, ctx_baggage = []\<rparr> (\<lambda>key. None) []) \<and>
         (mv_headers (emp_message payload) = None \<and>
          prop_decode P \<lparr>ctx_span = None, ctx_baggage = []\<rparr> (\<lambda>key. None) [] =
            \<lparr>ctx_span = None, ctx_baggage = []\<rparr> \<longrightarrow>
            map sp_parent
              (span_starts (new_events w
                 (snd (eachMessage inst P orig active payload w)))) = [None]) \<and>
         (\<forall>e. fst (eachMessage inst P orig active payload w) = Throws e \<longleftrightarrow>
              orig (EachMessageArgs payload)
                (pc\<lparr>ctx_span := Some (LocalSpan (next_span w))\<rparr>) = Throws e)"
proof -
  let ?h = "mv_headers (emp_message payload)"
  let ?pc = "propagation_extract P ROOT_CONTEXT ?h"
  let ?c = "setSpan ?pc (LocalSpan (next_span w))"
  let ?a = "EachMessageArgs payload :: message_value call_args"
  let ?pre = "consumerSpanEvents inst (emp_topic payload) (Some (emp_message payload))
                ''process'' (getSpan ?pc) None (next_span w)"
  have text_of: "toString_hv v =
                   (case v of
                      HString s \<Rightarrow> Some s
                    | HBuffer bs \<Rightarrow> Some (utf8Decode bs)
                    | HUndefined \<Rightarrow> None
                    | HNull \<Rightarrow> None
                    | HOther s \<Rightarrow> Some s)" for v
    by (cases v) simp_all
  have get: "getter_get h =
               (\<lambda>key. case h of
                         None \<Rightarrow> None
                       | Some c \<Rightarrow>
                           (case readProperty c key of
                              HString s \<Rightarrow> Some s
                            | HBuffer bs \<Rightarrow> Some (utf8Decode bs)
                            | HUndefined \<Rightarrow> None
                            | HNull \<Rightarrow> None
                            | HOther s \<Rightarrow> Some s))" for h
    by (rule ext) (simp add: getter_get_def text_of split: option.splits)
  have pc: "?pc = pc"
    unfolding extracted
    by (simp add: propagation_extract_def get getter_keys_def ROOT_CONTEXT_def)
  have new: "new_events w (snd (eachMessage inst P orig active payload w)) =
               ?pre @ OriginalCalled (EachMessageArgs payload) ?a ?c #
               finalizerEvents [next_span w] (orig ?a ?c)"
    by (simp add: eachMessage_eq Let_def)
  have res: "fst (eachMessage inst P orig active payload w) = finalResult (orig ?a ?c)"
    by (simp add: eachMessage_eq Let_def)
  have starts:
    "span_starts (new_events w (snd (eachMessage inst P orig active payload w))) =
       [\<lparr>sp_id = next_span w, sp_name = emp_topic payload, sp_kind = CONSUMER,
         sp_attributes = consumerAttributes (emp_topic payload) ''process'', sp_links = [],
         sp_parent = ctx_span pc\<rparr>]"
    unfolding new
    by (simp add: span_starts_append span_starts_consumerSpanEvents
          span_starts_finalizerEvents pc getSpan_def)
  have calls:
    "original_calls (new_events w (snd (eachMessage inst P orig active payload w))) =
       [(EachMessageArgs payload, pc\<lparr>ctx_span := Some (LocalSpan (next_span w))\<rparr>)]"
    unfolding new
    by (simp add: original_calls_append setup_no_calls [OF setup_consumerSpanEvents]
          original_calls_finalizerEvents pc setSpan_def)
  have absent: "?h = None \<Longrightarrow>
                pc = prop_decode P \<lparr>ctx_span = None, ctx_baggage = []\<rparr> (\<lambda>key. None) []"
    unfolding extracted by simp
  have throws: "finalResult r = Throws e \<longleftrightarrow> r = Throws e" for r e
    by (simp add: finalResult_def split: call_result.splits promise.splits sum.splits)
  have thrown: "fst (eachMessage inst P orig active payload w) = Throws e \<longleftrightarrow>
                orig (EachMessageArgs payload)
                  (pc\<lparr>ctx_span := Some (LocalSpan (next_span w))\<rparr>) = Throws e" for e
    unfolding res throws by (simp add: pc setSpan_def)
  show ?thesis
    unfolding starts calls
    using absent thrown by auto
qed

text \<open>
  Under a propagator that reads \<^verbatim>\<open>traceparent\<close>: a message whose header object
  holds the Buffer \<^verbatim>\<open>abc\<close> under that key gives the process span the remote span
  \<^verbatim>\<open>abc\<close> as its parent, and the handler runs under the context of the process
  span; a message without headers gives a span without a parent.
\<close>

theorem eachMessage_parent_context_witness:
  "mv_headers (emp_message tracedPayload) = Some tracedHeaders \<and>
   readProperty tracedHeaders ''traceparent'' = HBuffer ''abc'' \<and>
   utf8Decode ''abc'' = ''abc'' \<and>
   map sp_parent
     (span_starts (new_events emptyWorld
        (snd (eachMessage plainInstrumentation headerPropagator fulfils ROOT_CONTEXT
                tracedPayload emptyWorld)))) = [Some (RemoteSpan ''abc'')] \<and>
   original_calls (new_events emptyWorld
     (snd (eachMessage plainInstrumentation headerPropagator fulfils ROOT_CONTEXT
             tracedPayload emptyWorld))) =
     [(EachMessageArgs tracedPayload, \<lparr>ctx_span = Some (LocalSpan 0), ctx_baggage = []\<rparr>)] \<and>
   mv_headers (emp_message barePayload) = None \<and>
   prop_decode headerPropagator \<lparr>ctx_span = None, ctx_baggage = []\<rparr> (\<lambda>key. None) [] =
     \<lparr>ctx_span = None, ctx_baggage = []\<rparr> \<and>
   map sp_parent
     (span_starts (new_events emptyWorld
        (snd (eachMessage plainInstrumentation headerPropagator fulfils ROOT_CONTEXT
                barePayload emptyWorld)))) = [None] \<and>
   fst (eachMessage plainInstrumentation headerPropagator fulfils ROOT_CONTEXT
          barePayload emptyWorld) = Returns (Fulfilled JUndefined)"
proof -
  have present: "mv_headers (emp_message tracedPayload) = Some tracedHeaders"
    by (simp add: tracedPayload_def tracedMessage_def)
  have entry: "readProperty tracedHeaders ''traceparent'' = HBuffer ''abc''"
    by (simp add: readProperty_def tracedHeaders_def)
  have text_of: "utf8Decode ''abc'' = ''abc''"
    by (simp add: within_def)
  have remote:
    "\<lparr>ctx_span = Some (RemoteSpan ''abc''), ctx_baggage = []\<rparr> =
       prop_decode headerPropagator \<lparr>ctx_span = None, ctx_baggage = []\<rparr>
         (\<lambda>key. case mv_headers (emp_message tracedPayload) of
                   None \<Rightarrow> None
                 | Some c \<Rightarrow>
                     (case readProperty c key of
                        HString s \<Rightarrow> Some s
                      | HBuffer bs \<Rightarrow> Some (utf8Decode bs)
                      | HUndefined \<Rightarrow> None
                      | HNull \<Rightarrow> None
                      | HOther s \<Rightarrow> Some s))
         (case mv_headers (emp_message tracedPayload) of
            None \<Rightarrow> [] | Some c \<Rightarrow> ownKeys c)"
    by (simp add: present entry within_def headerPropagator_def setSpan_def)
  note traced =
    eachMessage_parent_context
      [OF remote, where w = emptyWorld and inst = plainInstrumentation and orig = fulfils
         and active = ROOT_CONTEXT]
  have zero: "next_span emptyWorld = 0" by (simp add: emptyWorld_def)
  from traced have parent: "map sp_parent
     (span_starts (new_events emptyWorld
        (snd (eachMessage plainInstrumentation headerPropagator fulfils ROOT_CONTEXT
                tracedPayload emptyWorld)))) = [Some (RemoteSpan ''abc'')]"
    by simp
  from traced have calls: "original_calls (new_events emptyWorld
     (snd (eachMessage plainInstrumentation headerPropagator fulfils ROOT_CONTEXT
             tracedPayload emptyWorld))) =
     [(EachMessageArgs tracedPayload, \<lparr>ctx_span = Some (LocalSpan 0), ctx_baggage = []\<rparr>)]"
    by (simp add: zero)
  have absent: "mv_headers (emp_message barePayload) = None"
    by (simp add: barePayload_def bareMessage_def)
  have undecoded:
    "prop_decode headerPropagator \<lparr>ctx_span = None, ctx_baggage = []\<rparr> (\<lambda>key. None) [] =
       \<lparr>ctx_span = None, ctx_baggage = []\<rparr>"
    by (simp add: headerPropagator_def)
  have empty:
    "\<lparr>ctx_span = None, ctx_baggage = []\<rparr> =
       prop_decode headerPropagator \<lparr>ctx_span = None, ctx_baggage = []\<rparr>
         (\<lambda>key. case mv_headers (emp_message barePayload) of
                   None \<Rightarrow> None
                 | Some c \<Rightarrow>
                     (case readProperty c key of
                        HString s \<Rightarrow> Some s
                      | HBuffer bs \<Rightarrow> Some (utf8Decode bs)
                      | HUndefined \<Rightarrow> None
                      | HNull \<Rightarrow> None
                      | HOther s \<Rightarrow> Some s))
         (case mv_headers (emp_message barePayload) of
            None \<Rightarrow> [] | Some c \<Rightarrow> ownKeys c)"
    by (simp add: absent undecoded)
  note bare =
    eachMessage_parent_context
      [OF empty, where w = emptyWorld and inst = plainInstrumentation and orig = fulfils
         and active = ROOT_CONTEXT,
       THEN conjunct2, THEN conjunct2, THEN conjunct2, THEN conjunct2, THEN conjunct1]
  have parents: "map sp_parent
     (span_starts (new_events emptyWorld
        (snd (eachMessage plainInstrumentation headerPropagator fulfils ROOT_CONTEXT
                barePayload emptyWorld)))) = [None]"
    by (rule mp [OF bare conjI [OF absent undecoded]])
  have result: "fst (eachMessage plainInstrumentation headerPropagator fulfils
                  ROOT_CONTEXT barePayload emptyWorld) = Returns (Fulfilled JUndefined)"
    by (simp add: run_defs sample_defs)
  show ?thesis
    by (intro conjI present entry text_of parent calls absent undecoded parents result)
qed

subsection \<open>C8: the carrier adapter\<close>

text \<open>
  C8, as the code has it. \<^verbatim>\<open>get\<close> reads the property of the carrier at the key,
  an own property or else one inherited from the prototype: it yields the string itself
  for a string, the decoded text for a Buffer and the string representation for any
  other value, and undefined when the carrier is absent, when the key is neither an own
  nor an inherited property, and when the value is undefined or null. \<^verbatim>\<open>keys\<close>
  yields the empty sequence for an absent carrier and the own keys of a present one,
  each once: the integer-like keys first in ascending order, the other keys after them
  in the order of their creation. Both are functions of their arguments alone: they
  return a value on every input and change nothing.
\<close>

theorem getter_reads_properties:
  "getter_get None key = None \<and>
   getter_get (Some c) key =
     (case (case map_of (own c) key of
              Some v \<Rightarrow> v
            | None \<Rightarrow>
                (case map_of (inherited c) key of
                   Some p \<Rightarrow> inh_value p
                 | None \<Rightarrow> HUndefined)) of
        HString s \<Rightarrow> Some s
      | HBuffer bs \<Rightarrow> Some (utf8Decode bs)
      | HUndefined \<Rightarrow> None
      | HNull \<Rightarrow> None
      | HOther s \<Rightarrow> Some s) \<and>
   (getter_get (Some c) key = None \<longleftrightarrow>
      readProperty c key = HUndefined \<or> readProperty c key = HNull) \<and>
   getter_keys None = [] \<and>
   set (getter_keys (Some c)) = fst ` set (own c) \<and>
   length (getter_keys (Some c)) = length (own c) \<and>
   (\<forall>k. count_list (getter_keys (Some c)) k = count_list (map fst (own c)) k) \<and>
   getter_keys (Some c) =
     filter isArrayIndex (getter_keys (Some c)) @
     filter (\<lambda>k. \<not> isArrayIndex k) (getter_keys (Some c)) \<and>
   sorted (map numeralValue (filter isArrayIndex (getter_keys (Some c)))) \<and>
   filter (\<lambda>k. \<not> isArrayIndex k) (getter_keys (Some c)) =
     filter (\<lambda>k. \<not> isArrayIndex k) (map fst (own c))"
proof -
  let ?ks = "map fst (own c)"
  let ?ix = "sort_key numeralValue (filter isArrayIndex ?ks)"
  let ?rest = "filter (\<lambda>k. \<not> isArrayIndex k) ?ks"
  have keys: "getter_keys (Some c) = ?ix @ ?rest"
    by (simp add: getter_keys_def ownKeys_def)
  have all_ix: "filter isArrayIndex ?ix = ?ix"
    by (rule filter_True) simp
  have no_ix: "filter (\<lambda>k. \<not> isArrayIndex k) ?ix = []"
    by (rule filter_False) simp
  have ix: "filter isArrayIndex (getter_keys (Some c)) = ?ix"
    unfolding keys by (simp add: all_ix)
  have rest: "filter (\<lambda>k. \<not> isArrayIndex k) (getter_keys (Some c)) = ?rest"
    unfolding keys by (simp add: no_ix)
  have text_of: "toString_hv v =
                   (case v of
                      HString s \<Rightarrow> Some s
                    | HBuffer bs \<Rightarrow> Some (utf8Decode bs)
                    | HUndefined \<Rightarrow> None
                    | HNull \<Rightarrow> None
                    | HOther s \<Rightarrow> Some s)" for v
    by (cases v) simp_all
  have g0: "getter_get None key = None"
    by (simp add: getter_get_def)
  have g1: "getter_get (Some c) key =
     (case (case map_of (own c) key of
              Some v \<Rightarrow> v
            | None \<Rightarrow>
                (case map_of (inherited c) key of
                   Some p \<Rightarrow> inh_value p
                 | None \<Rightarrow> HUndefined)) of
        HString s \<Rightarrow> Some s
      | HBuffer bs \<Rightarrow> Some (utf8Decode bs)
      | HUndefined \<Rightarrow> None
      | HNull \<Rightarrow> None
      | HOther s \<Rightarrow> Some s)"
    by (simp add: getter_get_def readProperty_def text_of)
  have g2: "getter_get (Some c) key = None \<longleftrightarrow>
              readProperty c key = HUndefined \<or> readProperty c key = HNull"
    by (cases "readProperty c key") (simp_all add: getter_get_def)
  have k0: "getter_keys None = []"
    by (simp add: getter_keys_def)
  have k1: "set (getter_keys (Some c)) = fst ` set (own c)"
    unfolding keys by auto
  have k2: "length (getter_keys (Some c)) = length (own c)"
    unfolding keys using sum_length_filter_compl [of isArrayIndex ?ks] by simp
  have once: "\<forall>k. count_list (getter_keys (Some c)) k = count_list ?ks k"
    unfolding keys
    by (simp add: count_list_sort_key count_list_filter_split)
  have k3: "getter_keys (Some c) =
              filter isArrayIndex (getter_keys (Some c)) @
              filter (\<lambda>k. \<not> isArrayIndex k) (getter_keys (Some c))"
    unfolding ix rest by (rule keys)
  have k4: "sorted (map numeralValue (filter isArrayIndex (getter_keys (Some c))))"
    unfolding ix by (rule sorted_sort_key)
  show ?thesis
    by (intro conjI g0 g1 g2 k0 k1 k2 once k3 k4 rest)
qed

text \<open>
  A carrier with a Buffer that ends in an invalid byte under \<^verbatim>\<open>traceparent\<close> and two
  integer-like keys created in descending order, read at a present and at an absent
  key; and an absent carrier.
\<close>

theorem getter_reads_witness:
  "getter_get
     (Some \<lparr>own = [(''traceparent'', HBuffer [CHR ''a'', CHR 0xFF]), (''10'', HString ''x''),
                   (''2'', HNull)],
            inherited = objectPrototype\<rparr>) ''traceparent'' =
     Some [CHR ''a'', CHR 0xEF, CHR 0xBF, CHR 0xBD] \<and>
   getter_get
     (Some \<lparr>own = [(''traceparent'', HBuffer [CHR ''a'', CHR 0xFF]), (''10'', HString ''x''),
                   (''2'', HNull)],
            inherited = objectPrototype\<rparr>) ''tracestate'' = None \<and>
   getter_get
     (Some \<lparr>own = [(''traceparent'', HBuffer [CHR ''a'', CHR 0xFF]), (''10'', HString ''x''),
                   (''2'', HNull)],
            inherited = objectPrototype\<rparr>) ''2'' = None \<and>
   getter_get None ''traceparent'' = None \<and>
   getter_keys
     (Some \<lparr>own = [(''traceparent'', HBuffer [CHR ''a'', CHR 0xFF]), (''10'', HString ''x''),
                   (''2'', HNull)],
            inherited = objectPrototype\<rparr>) = [''2'', ''10'', ''traceparent''] \<and>
   getter_keys None = []"
proof -
  let ?c = "\<lparr>own = [(''traceparent'', HBuffer [CHR ''a'', CHR 0xFF]), (''10'', HString ''x''),
                  (''2'', HNull)],
            inherited = objectPrototype\<rparr>"
  have absent: "map_of objectPrototype ''tracestate'' = None"
    by (simp add: objectPrototype_def)
  have keys: "getter_keys (Some ?c) = [''2'', ''10'', ''traceparent'']"
    by (simp add: getter_keys_def ownKeys_def isArrayIndex_def digitValue_def
          numeralValue_def)
  from getter_reads_properties [of "''traceparent''" ?c,
         THEN conjunct2, THEN conjunct1]
  have g1: "getter_get (Some ?c) ''traceparent'' =
              Some [CHR ''a'', CHR 0xEF, CHR 0xBF, CHR 0xBD]"
    by (simp add: within_def replacement_def)
  from getter_reads_properties [of "''tracestate''" ?c,
         THEN conjunct2, THEN conjunct1]
  have g2: "getter_get (Some ?c) ''tracestate'' = None"
    by (simp add: absent)
  from getter_reads_properties [of "''2''" ?c, THEN conjunct2, THEN conjunct1]
  have g3: "getter_get (Some ?c) ''2'' = None"
    by simp
  note none = getter_reads_properties [of "''traceparent''" ?c]
  from none have g0: "getter_get None ''traceparent'' = None"
    by (rule conjunct1)
  from none have k0: "getter_keys None = []"
    by (elim conjE)
  show ?thesis
    by (intro conjI g1 g2 g3 g0 keys k0)
qed

text \<open>
  C8 as stated says \<^verbatim>\<open>get\<close> yields undefined when the key is absent. The empty
  object has no key at all, and \<^verbatim>\<open>get\<close> at \<^verbatim>\<open>constructor\<close> yields the text of
  the function it inherits under that name.
\<close>

theorem getter_reads_inherited_property:
  "own emptyObject = [] \<and>
   getter_keys (Some emptyObject) = [] \<and>
   getter_get (Some emptyObject) ''constructor'' =
     Some ''function Object() { [native code] }''"
  by (simp add: getter_get_def getter_keys_def ownKeys_def readProperty_def emptyObject_def
        objectPrototype_def nativeFunction_def)

subsection \<open>C9: hooks cannot break span creation\<close>

text \<open>
  C9, as the code has it. Producer-span and consumer-span creation always return the
  span they started, whatever a configured hook does: a value thrown by the hook is
  caught and never thrown on. It is sent to \<^verbatim>\<open>diag.error\<close> when it is truthy, as
  every Error object is; a falsy thrown value is caught without a log entry, since the
  callback logs under \<^verbatim>\<open>if (e)\<close>. The consumer hook is called exactly when a hook
  is configured and a message is present, so the receive span of a batch, which has no
  message, skips it. The producer hook is given the message as it reads after the
  injection.
\<close>

theorem hook_errors_are_contained:
  "(\<exists>w'. startProducerSpan inst P topic r active w = Inr (next_span w, w') \<and>
          store w' = producerStore P active (next_span w) r (store w) \<and>
          map sp_id (span_starts (new_events w w')) = [next_span w] \<and>
          hook_calls (new_events w w') =
            (case producerHook (config inst) of
               None \<Rightarrow> []
             | Some h \<Rightarrow> [(ProducerHook, next_span w, topic, readMessage (store w') r)]) \<and>
          diag_errors (new_events w w') =
            (case producerHook (config inst) of
               None \<Rightarrow> []
             | Some h \<Rightarrow>
                 (case hook_throws (h (next_span w) topic (readMessage (store w') r)) of
                    None \<Rightarrow> []
                  | Some e \<Rightarrow>
                      if truthy e
                      then [(''kafkajs instrumentation: producerHook error'', e)] else []))) \<and>
   (\<exists>w'. startConsumerSpan inst topic msg operation ctx link active w =
            Inr (next_span w, w') \<and>
          map sp_id (span_starts (new_events w w')) = [next_span w] \<and>
          hook_calls (new_events w w') =
            (case consumerHook (config inst) of
               None \<Rightarrow> []
             | Some h \<Rightarrow>
                 (case msg of
                    None \<Rightarrow> []
                  | Some mm \<Rightarrow> [(ConsumerHook, next_span w, topic, mm)])) \<and>
          diag_errors (new_events w w') =
            (case consumerHook (config inst) of
               None \<Rightarrow> []
             | Some h \<Rightarrow>
                 (case msg of
                    None \<Rightarrow> []
                  | Some mm \<Rightarrow>
                      (case hook_throws (h (next_span w) topic mm) of
                         None \<Rightarrow> []
                       | Some e \<Rightarrow>
                           if truthy e
                           then [(''kafkajs instrumentation: consumerHook error'', e)]
                           else []))))"
proof -
  have producer: "hook_calls (producerSpanEvents inst P topic active s r st) =
       (case producerHook (config inst) of
          None \<Rightarrow> []
        | Some h \<Rightarrow> [(ProducerHook, s, topic, readMessage (producerStore P active s r st) r)]) \<and>
     diag_errors (producerSpanEvents inst P topic active s r st) =
       (case producerHook (config inst) of
          None \<Rightarrow> []
        | Some h \<Rightarrow>
            (case hook_throws (h s topic (readMessage (producerStore P active s r st) r)) of
               None \<Rightarrow> []
             | Some e \<Rightarrow>
                 if truthy e
                 then [(''kafkajs instrumentation: producerHook error'', e)] else []))" for s st
    by (simp add: producerSpanEvents_def hook_calls_append diag_errors_append
          hook_calls_moduleVersionEvents diag_errors_moduleVersionEvents
          hook_calls_hookEvents diag_errors_hookEvents split: option.splits)
  have consumer: "hook_calls (consumerSpanEvents inst topic msg operation parent link s) =
       (case consumerHook (config inst) of
          None \<Rightarrow> []
        | Some h \<Rightarrow> (case msg of None \<Rightarrow> [] | Some mm \<Rightarrow> [(ConsumerHook, s, topic, mm)])) \<and>
     diag_errors (consumerSpanEvents inst topic msg operation parent link s) =
       (case consumerHook (config inst) of
          None \<Rightarrow> []
        | Some h \<Rightarrow>
            (case msg of
               None \<Rightarrow> []
             | Some mm \<Rightarrow>
                 (case hook_throws (h s topic mm) of
                    None \<Rightarrow> []
                  | Some e \<Rightarrow>
                      if truthy e
                      then [(''kafkajs instrumentation: consumerHook error'', e)]
                      else [])))" for s parent
    by (simp add: consumerSpanEvents_def hook_calls_append diag_errors_append
          hook_calls_moduleVersionEvents diag_errors_moduleVersionEvents
          hook_calls_hookEvents diag_errors_hookEvents split: option.splits)
  show ?thesis
    by (simp add: startProducerSpan_eq startConsumerSpan_eq producer consumer
          span_starts_producerSpanEvents span_starts_consumerSpanEvents
          cong: option.case_cong)
qed

text \<open>
  C9 as stated says every exception of a hook is logged. A producer hook that throws
  \<^verbatim>\<open>null\<close>: the span is started and returned, the hook is called, and nothing is
  logged.
\<close>

theorem falsy_hook_error_is_not_logged:
  "hook_throws (nullThrowingHook 0 ''orders''
      \<lparr>mv_key = None, mv_value = Some ''v'',
       mv_headers = Some \<lparr>own = [(''traceparent'', HString ''1'')],
                          inherited = objectPrototype\<rparr>\<rparr>) = Some JNull \<and>
   map_sum (\<lambda>t. t) (\<lambda>(s, w). (s, next_span w, trace w))
     (startProducerSpan hookedInstrumentation headerPropagator ''orders'' 0
        ROOT_CONTEXT emptyWorld) =
     Inr (0, 1,
          [SpanStarted
             \<lparr>sp_id = 0, sp_name = ''orders'', sp_kind = PRODUCER,
              sp_attributes = producerAttributes ''orders'', sp_links = [],
              sp_parent = None\<rparr>,
           HookCalled ProducerHook 0 ''orders''
             \<lparr>mv_key = None, mv_value = Some ''v'',
              mv_headers = Some \<lparr>own = [(''traceparent'', HString ''1'')],
                                 inherited = objectPrototype\<rparr>\<rparr>]) \<and>
   diag_errors (trace (snd (projr
     (startProducerSpan hookedInstrumentation headerPropagator ''orders'' 0
        ROOT_CONTEXT emptyWorld)))) = []"
  by (simp add: run_defs sample_defs)

subsection \<open>C10: sendBatch without topicMessages\<close>

text \<open>
  C10 at the input where the code departs from it. A batch without
  \<^verbatim>\<open>topicMessages\<close> starts no span and the original is called once with the batch
  as it came (\<open>sendBatch_without_topicMessages\<close>), but when the original rejects with
  \<^verbatim>\<open>null\<close> the returned promise rejects with the TypeError of the catch handler
  instead of the original reason.
\<close>

theorem sendBatch_without_topicMessages_null_rejection:
  "rejectsWithNull (SendBatchArgs emptyBatch) ROOT_CONTEXT = Returns (Rejected JNull) \<and>
   sendBatch plainInstrumentation headerPropagator rejectsWithNull ROOT_CONTEXT emptyBatch
     emptyWorld =
     (Returns (Rejected nullTypeError),
      \<lparr>next_span = 0,
       trace = [OriginalCalled (SendBatchArgs emptyBatch) (SendBatchArgs emptyBatch)
                  ROOT_CONTEXT],
       store = emptyStore\<rparr>)"
  by (simp add: run_defs sample_defs)

end
